theory Spec2Isabelle
  imports Main "HOL-Library.AList"
begin

section \<open>Values, records and errors\<close>

text \<open>
  Record fields and filter values are typed \<open>unknown\<close> in the source; at run time they are
  JSON values (request bodies, \<open>JSON.parse\<close> results). Numbers are kept to the integers: no
  property below computes with a record's numbers. A string is a list of 8-bit characters
  where the source has UTF-16 code units; the code below looks only for ASCII characters
  (the colon, the percent sign, letters, digits, underscore, hyphen), and a character
  outside ASCII is in none of the character classes of the two patterns.
\<close>

datatype jsval =
    JUndefined
  | JNull
  | JBool bool
  | JNum int
  | JStr string
  | JArr "jsval list"
  | JObj "(string \<times> jsval) list"

text \<open>
  \<open>DataRecord\<close>: an object, as the list of its own properties in insertion order.
  \<open>r[k]\<close> is \<open>get r k\<close>; writing a property that exists keeps its place, as
  \<open>AList.update\<close> does.
\<close>

type_synonym DataRecord = "(string \<times> jsval) list"

definition get :: "DataRecord \<Rightarrow> string \<Rightarrow> jsval" where
  "get r k = (case map_of r k of None \<Rightarrow> JUndefined | Some v \<Rightarrow> v)"

text \<open>The codes of \<open>DataError\<close> (types/index.ts).\<close>

datatype error_code = VALIDATION | NOT_FOUND | ADAPTER | UNKNOWN

text \<open>
  What a \<open>throw\<close> (or a rejected promise) carries: a plain \<open>Error\<close> with its message, a
  \<open>DataError\<close> (a subclass of \<open>Error\<close>) with message and code, or a value that is not an
  \<open>Error\<close> instance.
\<close>

datatype thrown =
    Error string
  | DataError string error_code
  | NonError jsval

text \<open>\<open>err instanceof Error\<close>, \<open>err.message\<close> and \<open>err.code\<close>.\<close>

fun instanceof_Error :: "thrown \<Rightarrow> bool" where
  "instanceof_Error (Error m) = True"
| "instanceof_Error (DataError m c) = True"
| "instanceof_Error (NonError v) = False"

fun message :: "thrown \<Rightarrow> string" where
  "message (Error m) = m"
| "message (DataError m c) = m"
| "message (NonError v) = []"

fun code :: "thrown \<Rightarrow> error_code option" where
  "code (Error m) = None"
| "code (DataError m c) = Some c"
| "code (NonError v) = None"

record QueryFilter =
  field :: string
  operator :: string
  val :: jsval

datatype direction = asc | desc

record OrderBy =
  ob_field :: string
  ob_direction :: direction

section \<open>The query-string parsers (\<open>parseFilters\<close>, \<open>parseOrderBy\<close> in api/src/index.ts)\<close>

text \<open>\<open>s.split(sep)\<close> for a one-character separator: never empty, \<open>''''\<close> gives \<open>['''']\<close>.\<close>

fun js_split :: "char \<Rightarrow> string \<Rightarrow> string list" where
  "js_split sep [] = [[]]"
| "js_split sep (c # cs) =
     (if c = sep then [] # js_split sep cs
      else (case js_split sep cs of
              [] \<Rightarrow> [[c]]
            | p # ps \<Rightarrow> (c # p) # ps))"

text \<open>\<open>parts.join(sep)\<close>.\<close>

fun js_join :: "string \<Rightarrow> string list \<Rightarrow> string" where
  "js_join sep [] = []"
| "js_join sep [p] = p"
| "js_join sep (p # q # ps) = p @ sep @ js_join sep (q # ps)"

text \<open>
  The raw query parameter, of type \<open>string | string[] | undefined\<close>. \<open>!raw\<close> holds for
  \<open>undefined\<close> and for the empty string; an array, even an empty one, is truthy.
\<close>

datatype raw_param = Undefined | Str string | Arr "string list"

fun falsy :: "raw_param \<Rightarrow> bool" where
  "falsy Undefined = True"
| "falsy (Str s) = (s = [])"
| "falsy (Arr xs) = False"

fun items_of :: "raw_param \<Rightarrow> string list" where
  "items_of (Arr xs) = xs"
| "items_of (Str s) = [s]"
| "items_of Undefined = []"

text \<open>
  The callback of \<open>items.map\<close> in \<open>parseFilters\<close>. \<open>JSON.parse\<close> is the runtime's: it is the
  parameter \<open>JSON_parse\<close>, \<open>None\<close> where it throws. The cast of \<open>parts[1]\<close> to the operator
  type checks nothing, so the operator is any string.
\<close>

definition parseFilter :: "(string \<Rightarrow> jsval option) \<Rightarrow> string \<Rightarrow> thrown + QueryFilter" where
  "parseFilter JSON_parse s =
     (let parts = js_split CHR '':'' s in
      if length parts < 3
      then Inl (Error (''Invalid filter format: '' @ s @ '' (expected field:op:value)''))
      else
        let fld = parts ! 0;
            opr = parts ! 1;
            v = js_join '':'' (drop 2 parts)
        in (case JSON_parse v of
              Some j \<Rightarrow> Inr \<lparr>field = fld, operator = opr, val = j\<rparr>
            | None \<Rightarrow> Inr \<lparr>field = fld, operator = opr, val = JStr v\<rparr>))"

text \<open>\<open>items.map(f)\<close> for a callback that may throw: the first throw ends the map.\<close>

fun map_throwing :: "('a \<Rightarrow> thrown + 'b) \<Rightarrow> 'a list \<Rightarrow> thrown + 'b list" where
  "map_throwing f [] = Inr []"
| "map_throwing f (x # xs) =
     (case f x of
        Inl e \<Rightarrow> Inl e
      | Inr y \<Rightarrow> (case map_throwing f xs of
                   Inl e \<Rightarrow> Inl e
                 | Inr ys \<Rightarrow> Inr (y # ys)))"

definition parseFilters :: "(string \<Rightarrow> jsval option) \<Rightarrow> raw_param \<Rightarrow> thrown + QueryFilter list" where
  "parseFilters JSON_parse raw =
     (if falsy raw then Inr []
      else map_throwing (parseFilter JSON_parse) (items_of raw))"

text \<open>
  The callback of \<open>parseOrderBy\<close>: \<open>const [field, dir] = s.split(':')\<close>; \<open>dir\<close> is
  \<open>undefined\<close> when there is no second segment.
\<close>

definition parseOrder :: "string \<Rightarrow> OrderBy" where
  "parseOrder s =
     (let parts = js_split CHR '':'' s;
          fld = hd parts;
          dir = (case tl parts of [] \<Rightarrow> None | d # _ \<Rightarrow> Some d)
      in \<lparr>ob_field = fld, ob_direction = (if dir = Some ''desc'' then desc else asc)\<rparr>)"

definition parseOrderBy :: "raw_param \<Rightarrow> OrderBy list option" where
  "parseOrderBy raw =
     (if falsy raw then None
      else Some (map parseOrder (items_of raw)))"

text \<open>
  A fragment of \<open>JSON.parse\<close>, for evaluating the parsers on concrete inputs: the literals
  \<open>null\<close>, \<open>true\<close>, \<open>false\<close> and unsigned decimal integers without a leading zero; on
  everything else it answers \<open>None\<close>.
\<close>

definition digit_val :: "char \<Rightarrow> nat" where
  "digit_val c = of_char c - 48"

definition is_digit :: "char \<Rightarrow> bool" where
  "is_digit c = (48 \<le> (of_char c :: nat) \<and> (of_char c :: nat) \<le> 57)"

definition JSON_parse_literals :: "string \<Rightarrow> jsval option" where
  "JSON_parse_literals s =
     (if s = ''null'' then Some JNull
      else if s = ''true'' then Some (JBool True)
      else if s = ''false'' then Some (JBool False)
      else if s \<noteq> [] \<and> list_all is_digit s \<and> (length s = 1 \<or> hd s \<noteq> CHR ''0'')
      then Some (JNum (int (foldl (\<lambda>n c. 10 * n + digit_val c) 0 s)))
      else None)"

section \<open>Query options and results (core/src/types/index.ts)\<close>

record QueryOptions =
  filters :: "QueryFilter list option"
  orderBy :: "OrderBy list option"
  limit :: "int option"
  offset :: "int option"
  select :: "string list option"

record PaginatedResult =
  pr_data :: "DataRecord list"
  pr_count :: int
  pr_limit :: int
  pr_offset :: int
  hasMore :: bool

record health =
  ok :: bool
  latencyMs :: int

section \<open>The adapter interface (\<open>DataAdapter\<close> in core/src/adapters/supabase.ts)\<close>

text \<open>
  An adapter is its nine operations over a backend state \<open>'s\<close>. A promise that rejects is
  \<open>Inl\<close> of what it rejects with; the state after the call is returned either way.
\<close>

record 's DataAdapter =
  ad_findMany :: "'s \<Rightarrow> string \<Rightarrow> QueryOptions option \<Rightarrow> (thrown + PaginatedResult) \<times> 's"
  ad_findOne :: "'s \<Rightarrow> string \<Rightarrow> string \<Rightarrow> (thrown + DataRecord option) \<times> 's"
  ad_create :: "'s \<Rightarrow> string \<Rightarrow> DataRecord \<Rightarrow> (thrown + DataRecord) \<times> 's"
  ad_createMany :: "'s \<Rightarrow> string \<Rightarrow> DataRecord list \<Rightarrow> (thrown + DataRecord list) \<times> 's"
  ad_update :: "'s \<Rightarrow> string \<Rightarrow> string \<Rightarrow> DataRecord \<Rightarrow> (thrown + DataRecord) \<times> 's"
  ad_delete :: "'s \<Rightarrow> string \<Rightarrow> string \<Rightarrow> (thrown + unit) \<times> 's"
  ad_deleteMany :: "'s \<Rightarrow> string \<Rightarrow> QueryFilter list \<Rightarrow> (thrown + int) \<times> 's"
  ad_count :: "'s \<Rightarrow> string \<Rightarrow> QueryFilter list option \<Rightarrow> (thrown + int) \<times> 's"
  ad_healthCheck :: "'s \<Rightarrow> (thrown + health) \<times> 's"

section \<open>The data service (core/src/services/data.ts)\<close>

subsection \<open>The two regular expressions\<close>

text \<open>
  The patterns of the source are anchored sequences of quantified character classes. A
  class is a list of ranges and single characters; \<open>Rep cls lo hi\<close> is \<open>[cls]{lo,hi}\<close>
  and a bare class is \<open>Rep cls 1 1\<close>. \<open>regex_test\<close> is \<open>RegExp.prototype.test\<close> for a
  pattern between \<open>^\<close> and \<open>$\<close> (no flags: \<open>$\<close> is the end of the input).
\<close>

datatype char_item = Rng char char | Chr char

fun in_item :: "char \<Rightarrow> char_item \<Rightarrow> bool" where
  "in_item c (Rng lo hi) = ((of_char lo :: nat) \<le> of_char c \<and> (of_char c :: nat) \<le> of_char hi)"
| "in_item c (Chr d) = (c = d)"

definition in_class :: "char_item list \<Rightarrow> char \<Rightarrow> bool" where
  "in_class cls c = list_ex (in_item c) cls"

datatype atom = Rep "char_item list" nat nat

fun regex_test :: "atom list \<Rightarrow> string \<Rightarrow> bool" where
  "regex_test [] s = (s = [])"
| "regex_test (Rep cls lo hi # rest) s =
     list_ex (\<lambda>k. k \<le> length s \<and> list_all (in_class cls) (take k s) \<and> regex_test rest (drop k s))
       [lo..<Suc hi]"

definition TABLE_NAME_RE :: "atom list" where
  "TABLE_NAME_RE =
     [Rep [Rng CHR ''a'' CHR ''z'', Rng CHR ''A'' CHR ''Z'', Chr CHR ''_''] 1 1,
      Rep [Rng CHR ''a'' CHR ''z'', Rng CHR ''A'' CHR ''Z'', Rng CHR ''0'' CHR ''9'', Chr CHR ''_''] 0 62]"

definition ID_RE :: "atom list" where
  "ID_RE =
     [Rep [Rng CHR ''a'' CHR ''z'', Rng CHR ''A'' CHR ''Z'', Rng CHR ''0'' CHR ''9'',
           Chr CHR ''_'', Chr CHR ''-''] 1 255]"

subsection \<open>The service object\<close>

record CacheEntry =
  data :: DataRecord
  expiresAt :: int

text \<open>
  The fields of a \<open>DataService\<close>: the adapter (its state; its operations are passed
  beside), the cache, a JS \<open>Map\<close> kept as the list of its entries in insertion order, and
  the two settings the constructor reads from the configuration.
\<close>

record 's DataService =
  adapter :: 's
  cache :: "(string \<times> CacheEntry) list"
  cacheTtlMs :: int
  allowedTables :: "string list option"

record DataServiceConfig =
  cfg_cacheTtlMs :: "int option"
  cfg_allowedTables :: "string list option"

definition DataService_new :: "'s \<Rightarrow> DataServiceConfig option \<Rightarrow> 's DataService" where
  "DataService_new a config =
     \<lparr>adapter = a,
      cache = [],
      cacheTtlMs = (case config of None \<Rightarrow> 0
                    | Some c \<Rightarrow> (case cfg_cacheTtlMs c of None \<Rightarrow> 0 | Some t \<Rightarrow> t)),
      allowedTables = (case config of None \<Rightarrow> None | Some c \<Rightarrow> cfg_allowedTables c)\<rparr>"

definition validateTable :: "'s DataService \<Rightarrow> string \<Rightarrow> thrown + unit" where
  "validateTable svc table =
     (if \<not> regex_test TABLE_NAME_RE table
      then Inl (DataError (''Invalid table name: '' @ table) VALIDATION)
      else (case allowedTables svc of
              Some allowed \<Rightarrow>
                if table \<notin> set allowed
                then Inl (DataError (''Table not allowed: '' @ table) VALIDATION)
                else Inr ()
            | None \<Rightarrow> Inr ()))"

definition validateId :: "string \<Rightarrow> thrown + unit" where
  "validateId i =
     (if \<not> regex_test ID_RE i
      then Inl (DataError (''Invalid id: '' @ i) VALIDATION)
      else Inr ())"

text \<open>\<open>cacheKey(table, id?)\<close>: an absent or empty id is falsy.\<close>

definition cacheKey :: "string \<Rightarrow> string option \<Rightarrow> string" where
  "cacheKey table i =
     (case i of
        None \<Rightarrow> table
      | Some x \<Rightarrow> if x = [] then table else table @ '':'' @ x)"

text \<open>\<open>getCached(key)\<close> at the clock reading \<open>now\<close>: the value found, and the cache after.\<close>

definition getCached :: "int \<Rightarrow> (string \<times> CacheEntry) list \<Rightarrow> string
    \<Rightarrow> DataRecord option \<times> (string \<times> CacheEntry) list" where
  "getCached now c key =
     (case map_of c key of
        None \<Rightarrow> (None, c)
      | Some entry \<Rightarrow>
          if now > expiresAt entry then (None, AList.delete key c)
          else (Some (data entry), c))"

definition setCache :: "int \<Rightarrow> int \<Rightarrow> (string \<times> CacheEntry) list \<Rightarrow> string \<Rightarrow> DataRecord
    \<Rightarrow> (string \<times> CacheEntry) list" where
  "setCache ttl now c key d =
     (if ttl > 0 then AList.update key \<lparr>data = d, expiresAt = now + ttl\<rparr> c else c)"

text \<open>\<open>key.startsWith(p)\<close>.\<close>

definition startsWith :: "string \<Rightarrow> string \<Rightarrow> bool" where
  "startsWith key p = (take (length p) key = p)"

text \<open>
  \<open>invalidateTable\<close>: the loop over \<open>this.cache.keys()\<close>. Deleting the key at hand leaves
  the keys still to come in place, so the loop runs over the keys as they were at entry.
\<close>

definition invalidateTable :: "string \<Rightarrow> (string \<times> CacheEntry) list \<Rightarrow> (string \<times> CacheEntry) list" where
  "invalidateTable table c =
     fold (\<lambda>key acc. if startsWith key (table @ '':'') then AList.delete key acc else acc)
       (map fst c) c"

text \<open>
  The \<open>catch\<close> of every table operation:
  \<open>throw this.error(err instanceof Error ? err.message : '<op> failed', 'ADAPTER')\<close>.
\<close>

definition rethrow :: "string \<Rightarrow> thrown \<Rightarrow> thrown" where
  "rethrow opname err =
     DataError (if instanceof_Error err then message err else opname @ '' failed'') ADAPTER"

definition DataService_findMany :: "'s DataAdapter \<Rightarrow> 's DataService \<Rightarrow> string \<Rightarrow> QueryOptions option
    \<Rightarrow> (thrown + PaginatedResult) \<times> 's DataService" where
  "DataService_findMany A svc table options =
     (case validateTable svc table of
        Inl e \<Rightarrow> (Inl e, svc)
      | Inr _ \<Rightarrow>
          (case ad_findMany A (adapter svc) table options of
             (Inr r, s') \<Rightarrow> (Inr r, svc\<lparr>adapter := s'\<rparr>)
           | (Inl err, s') \<Rightarrow> (Inl (rethrow ''findMany'' err), svc\<lparr>adapter := s'\<rparr>)))"

text \<open>
  \<open>findOne\<close> reads the clock in \<open>getCached\<close> (\<open>now\<close>) and, after the adapter's answer, in
  \<open>setCache\<close> (\<open>now'\<close>). A cached record is an object, hence truthy.
\<close>

definition DataService_findOne :: "'s DataAdapter \<Rightarrow> int \<Rightarrow> int \<Rightarrow> 's DataService \<Rightarrow> string \<Rightarrow> string
    \<Rightarrow> (thrown + DataRecord option) \<times> 's DataService" where
  "DataService_findOne A now now' svc table i =
     (case validateTable svc table of
        Inl e \<Rightarrow> (Inl e, svc)
      | Inr _ \<Rightarrow>
          (case validateId i of
             Inl e \<Rightarrow> (Inl e, svc)
           | Inr _ \<Rightarrow>
               let key = cacheKey table (Some i);
                   (cached, c1) = getCached now (cache svc) key
               in (case cached of
                     Some r \<Rightarrow> (Inr (Some r), svc\<lparr>cache := c1\<rparr>)
                   | None \<Rightarrow>
                       (case ad_findOne A (adapter svc) table i of
                          (Inr None, s') \<Rightarrow> (Inr None, svc\<lparr>adapter := s', cache := c1\<rparr>)
                        | (Inr (Some r), s') \<Rightarrow>
                            (Inr (Some r),
                             svc\<lparr>adapter := s', cache := setCache (cacheTtlMs svc) now' c1 key r\<rparr>)
                        | (Inl err, s') \<Rightarrow>
                            (Inl (rethrow ''findOne'' err), svc\<lparr>adapter := s', cache := c1\<rparr>)))))"

definition DataService_create :: "'s DataAdapter \<Rightarrow> 's DataService \<Rightarrow> string \<Rightarrow> DataRecord
    \<Rightarrow> (thrown + DataRecord) \<times> 's DataService" where
  "DataService_create A svc table d =
     (case validateTable svc table of
        Inl e \<Rightarrow> (Inl e, svc)
      | Inr _ \<Rightarrow>
          (case ad_create A (adapter svc) table d of
             (Inr r, s') \<Rightarrow> (Inr r, svc\<lparr>adapter := s', cache := invalidateTable table (cache svc)\<rparr>)
           | (Inl err, s') \<Rightarrow> (Inl (rethrow ''create'' err), svc\<lparr>adapter := s'\<rparr>)))"

definition DataService_createMany :: "'s DataAdapter \<Rightarrow> 's DataService \<Rightarrow> string \<Rightarrow> DataRecord list
    \<Rightarrow> (thrown + DataRecord list) \<times> 's DataService" where
  "DataService_createMany A svc table ds =
     (case validateTable svc table of
        Inl e \<Rightarrow> (Inl e, svc)
      | Inr _ \<Rightarrow>
          (case ad_createMany A (adapter svc) table ds of
             (Inr r, s') \<Rightarrow> (Inr r, svc\<lparr>adapter := s', cache := invalidateTable table (cache svc)\<rparr>)
           | (Inl err, s') \<Rightarrow> (Inl (rethrow ''createMany'' err), svc\<lparr>adapter := s'\<rparr>)))"

definition DataService_update :: "'s DataAdapter \<Rightarrow> 's DataService \<Rightarrow> string \<Rightarrow> string \<Rightarrow> DataRecord
    \<Rightarrow> (thrown + DataRecord) \<times> 's DataService" where
  "DataService_update A svc table i d =
     (case validateTable svc table of
        Inl e \<Rightarrow> (Inl e, svc)
      | Inr _ \<Rightarrow>
          (case validateId i of
             Inl e \<Rightarrow> (Inl e, svc)
           | Inr _ \<Rightarrow>
               (case ad_update A (adapter svc) table i d of
                  (Inr r, s') \<Rightarrow>
                    (Inr r, svc\<lparr>adapter := s',
                                cache := AList.delete (cacheKey table (Some i)) (cache svc)\<rparr>)
                | (Inl err, s') \<Rightarrow> (Inl (rethrow ''update'' err), svc\<lparr>adapter := s'\<rparr>))))"

definition DataService_delete :: "'s DataAdapter \<Rightarrow> 's DataService \<Rightarrow> string \<Rightarrow> string
    \<Rightarrow> (thrown + unit) \<times> 's DataService" where
  "DataService_delete A svc table i =
     (case validateTable svc table of
        Inl e \<Rightarrow> (Inl e, svc)
      | Inr _ \<Rightarrow>
          (case validateId i of
             Inl e \<Rightarrow> (Inl e, svc)
           | Inr _ \<Rightarrow>
               (case ad_delete A (adapter svc) table i of
                  (Inr u, s') \<Rightarrow>
                    (Inr (), svc\<lparr>adapter := s',
                                 cache := AList.delete (cacheKey table (Some i)) (cache svc)\<rparr>)
                | (Inl err, s') \<Rightarrow> (Inl (rethrow ''delete'' err), svc\<lparr>adapter := s'\<rparr>))))"

definition DataService_deleteMany :: "'s DataAdapter \<Rightarrow> 's DataService \<Rightarrow> string \<Rightarrow> QueryFilter list
    \<Rightarrow> (thrown + int) \<times> 's DataService" where
  "DataService_deleteMany A svc table fs =
     (case validateTable svc table of
        Inl e \<Rightarrow> (Inl e, svc)
      | Inr _ \<Rightarrow>
          (case ad_deleteMany A (adapter svc) table fs of
             (Inr n, s') \<Rightarrow> (Inr n, svc\<lparr>adapter := s', cache := invalidateTable table (cache svc)\<rparr>)
           | (Inl err, s') \<Rightarrow> (Inl (rethrow ''deleteMany'' err), svc\<lparr>adapter := s'\<rparr>)))"

definition DataService_count :: "'s DataAdapter \<Rightarrow> 's DataService \<Rightarrow> string \<Rightarrow> QueryFilter list option
    \<Rightarrow> (thrown + int) \<times> 's DataService" where
  "DataService_count A svc table fs =
     (case validateTable svc table of
        Inl e \<Rightarrow> (Inl e, svc)
      | Inr _ \<Rightarrow>
          (case ad_count A (adapter svc) table fs of
             (Inr n, s') \<Rightarrow> (Inr n, svc\<lparr>adapter := s'\<rparr>)
           | (Inl err, s') \<Rightarrow> (Inl (rethrow ''count'' err), svc\<lparr>adapter := s'\<rparr>)))"

text \<open>\<open>healthCheck\<close> validates nothing and turns a rejection into a result.\<close>

definition DataService_healthCheck :: "'s DataAdapter \<Rightarrow> 's DataService
    \<Rightarrow> (thrown + health) \<times> 's DataService" where
  "DataService_healthCheck A svc =
     (case ad_healthCheck A (adapter svc) of
        (Inr h, s') \<Rightarrow> (Inr h, svc\<lparr>adapter := s'\<rparr>)
      | (Inl err, s') \<Rightarrow> (Inr \<lparr>ok = False, latencyMs = - 1\<rparr>, svc\<lparr>adapter := s'\<rparr>))"

section \<open>The in-memory adapter (\<open>InMemoryAdapter\<close> in core/src/adapters/supabase.ts)\<close>

subsection \<open>What the runtime supplies\<close>

text \<open>
  The adapter reads the clock, asks for random identifiers and compares values of unknown
  type with the operators of the language. These are the runtime's, not the repository's:
  they are the fields of \<open>runtime\<close>. The readings that change from call to call are
  indexed by \<open>tick\<close>, the number of readings made so far. \<open>crypto_randomUUID\<close> is \<open>None\<close>
  where \<open>globalThis.crypto.randomUUID\<close> is not a function; \<open>Math_random36\<close> is
  \<open>Math.random().toString(36).slice(2, 10)\<close>; \<open>js_includes\<close> is \<open>x.includes(v)\<close> for \<open>x\<close> of
  unknown type, which throws where \<open>x\<close> has no such method.
\<close>

record runtime =
  crypto_randomUUID :: "(nat \<Rightarrow> string) option"
  Date_now :: "nat \<Rightarrow> int"
  Date_toISOString :: "nat \<Rightarrow> string"
  Math_random36 :: "nat \<Rightarrow> string"
  strict_eq :: "jsval \<Rightarrow> jsval \<Rightarrow> bool"
  less_than :: "jsval \<Rightarrow> jsval \<Rightarrow> bool"
  less_eq_js :: "jsval \<Rightarrow> jsval \<Rightarrow> bool"
  greater_than :: "jsval \<Rightarrow> jsval \<Rightarrow> bool"
  greater_eq_js :: "jsval \<Rightarrow> jsval \<Rightarrow> bool"
  to_String :: "jsval \<Rightarrow> string"
  toLowerCase :: "string \<Rightarrow> string"
  js_includes :: "jsval \<Rightarrow> jsval \<Rightarrow> thrown + bool"

text \<open>
  The adapter's state: the \<open>tables\<close> map (a JS \<open>Map\<close>, as the list of its entries), the
  module variable \<open>counter\<close>, and the number of runtime readings made.
\<close>

record mem_state =
  tables :: "(string \<times> DataRecord list) list"
  counter :: nat
  tick :: nat

subsection \<open>Identifiers\<close>

text \<open>Decimal rendering of a number in a template literal.\<close>

fun show_nat :: "nat \<Rightarrow> string" where
  "show_nat n =
     (if n < 10 then [char_of (48 + n)]
      else show_nat (n div 10) @ [char_of (48 + n mod 10)])"

declare show_nat.simps [simp del]

definition show_int :: "int \<Rightarrow> string" where
  "show_int i = (if i < 0 then CHR ''-'' # show_nat (nat (- i)) else show_nat (nat i))"

definition uuid :: "runtime \<Rightarrow> mem_state \<Rightarrow> string \<times> mem_state" where
  "uuid rt st =
     (case crypto_randomUUID rt of
        Some randomUUID \<Rightarrow> (randomUUID (tick st), st\<lparr>tick := tick st + 1\<rparr>)
      | None \<Rightarrow>
          let c = counter st + 1
          in (''mem-'' @ show_int (Date_now rt (tick st)) @ ''-'' @ show_nat c @ ''-''
                @ Math_random36 rt (tick st + 1),
              st\<lparr>counter := c, tick := tick st + 2\<rparr>))"

subsection \<open>Tables and filters\<close>

text \<open>\<open>getTable\<close> creates the table when it is missing.\<close>

definition getTable :: "mem_state \<Rightarrow> string \<Rightarrow> DataRecord list \<times> mem_state" where
  "getTable st table =
     (case map_of (tables st) table of
        None \<Rightarrow> ([], st\<lparr>tables := AList.update table [] (tables st)\<rparr>)
      | Some records \<Rightarrow> (records, st))"

text \<open>\<open>s.includes(sub)\<close> on strings, and \<open>s.replace(/%/g, '')\<close>.\<close>

definition str_includes :: "string \<Rightarrow> string \<Rightarrow> bool" where
  "str_includes s sub = list_ex (\<lambda>i. take (length sub) (drop i s) = sub) [0..<Suc (length s)]"

definition strip_percent :: "string \<Rightarrow> string" where
  "strip_percent s = filter (\<lambda>c. c \<noteq> CHR ''%'') s"

text \<open>The callback of \<open>filters.every\<close>: the \<open>switch\<close> over the operator.\<close>

definition matchFilter :: "runtime \<Rightarrow> DataRecord \<Rightarrow> QueryFilter \<Rightarrow> thrown + bool" where
  "matchFilter rt r f =
     (let v = get r (field f); opr = operator f in
      if opr = ''eq'' then Inr (strict_eq rt v (val f))
      else if opr = ''neq'' then Inr (\<not> strict_eq rt v (val f))
      else if opr = ''gt'' then Inr (greater_than rt v (val f))
      else if opr = ''gte'' then Inr (greater_eq_js rt v (val f))
      else if opr = ''lt'' then Inr (less_than rt v (val f))
      else if opr = ''lte'' then Inr (less_eq_js rt v (val f))
      else if opr = ''like''
        then Inr (str_includes (to_String rt v) (strip_percent (to_String rt (val f))))
      else if opr = ''ilike''
        then Inr (str_includes (toLowerCase rt (to_String rt v))
                    (toLowerCase rt (strip_percent (to_String rt (val f)))))
      else if opr = ''in'' then js_includes rt (val f) v
      else if opr = ''is'' then Inr (strict_eq rt v (val f))
      else Inr True)"

text \<open>\<open>xs.every(p)\<close> and \<open>xs.filter(p)\<close> for a callback that may throw.\<close>

fun every_throwing :: "('a \<Rightarrow> thrown + bool) \<Rightarrow> 'a list \<Rightarrow> thrown + bool" where
  "every_throwing p [] = Inr True"
| "every_throwing p (x # xs) =
     (case p x of
        Inl e \<Rightarrow> Inl e
      | Inr b \<Rightarrow> if b then every_throwing p xs else Inr False)"

fun filter_throwing :: "('a \<Rightarrow> thrown + bool) \<Rightarrow> 'a list \<Rightarrow> thrown + 'a list" where
  "filter_throwing p [] = Inr []"
| "filter_throwing p (x # xs) =
     (case p x of
        Inl e \<Rightarrow> Inl e
      | Inr b \<Rightarrow>
          (case filter_throwing p xs of
             Inl e \<Rightarrow> Inl e
           | Inr ys \<Rightarrow> Inr (if b then x # ys else ys)))"

definition applyFilters :: "runtime \<Rightarrow> DataRecord list \<Rightarrow> QueryFilter list option
    \<Rightarrow> thrown + DataRecord list" where
  "applyFilters rt records fs =
     (case fs of
        None \<Rightarrow> Inr records
      | Some [] \<Rightarrow> Inr records
      | Some (f # fs') \<Rightarrow>
          filter_throwing (\<lambda>r. every_throwing (matchFilter rt r) (f # fs')) records)"

subsection \<open>Sorting and slicing\<close>

text \<open>The comparator given to \<open>records.sort\<close>: the first key on which the two differ decides.\<close>

fun compare_by :: "runtime \<Rightarrow> OrderBy list \<Rightarrow> DataRecord \<Rightarrow> DataRecord \<Rightarrow> int" where
  "compare_by rt [] a b = 0"
| "compare_by rt (ob # obs) a b =
     (let av = get a (ob_field ob); bv = get b (ob_field ob) in
      if strict_eq rt av bv then compare_by rt obs a b
      else
        let cmp = (if less_than rt av bv then - 1 else 1)
        in if ob_direction ob = desc then - cmp else cmp)"

text \<open>
  \<open>Array.prototype.sort\<close> with a comparator is stable; it is modelled as a stable insertion
  sort. Where the comparator is not a consistent order the language leaves the order
  open, and this is one of the permitted outcomes.
\<close>

fun insert_by :: "('a \<Rightarrow> 'a \<Rightarrow> int) \<Rightarrow> 'a \<Rightarrow> 'a list \<Rightarrow> 'a list" where
  "insert_by cmp x [] = [x]"
| "insert_by cmp x (y # ys) =
     (if cmp x y \<le> 0 then x # y # ys else y # insert_by cmp x ys)"

definition js_sort :: "('a \<Rightarrow> 'a \<Rightarrow> int) \<Rightarrow> 'a list \<Rightarrow> 'a list" where
  "js_sort cmp xs = foldr (insert_by cmp) xs []"

text \<open>
  \<open>xs.slice(start, end)\<close> on integers: a negative index counts from the end, and both
  are clamped to the array.
\<close>

definition js_slice :: "'a list \<Rightarrow> int \<Rightarrow> int \<Rightarrow> 'a list" where
  "js_slice xs start fin =
     (let len = int (length xs);
          k = (if start < 0 then max (len + start) 0 else min start len);
          final = (if fin < 0 then max (len + fin) 0 else min fin len)
      in take (nat (final - k)) (drop (nat k) xs))"

subsection \<open>The operations\<close>

definition InMemoryAdapter_findMany :: "runtime \<Rightarrow> mem_state \<Rightarrow> string \<Rightarrow> QueryOptions option
    \<Rightarrow> (thrown + PaginatedResult) \<times> mem_state" where
  "InMemoryAdapter_findMany rt st table options =
     (let (records, st1) = getTable st table in
      case applyFilters rt records (case options of None \<Rightarrow> None | Some opts \<Rightarrow> filters opts) of
        Inl e \<Rightarrow> (Inl e, st1)
      | Inr filtered \<Rightarrow>
          let sorted =
                (case (case options of None \<Rightarrow> None | Some opts \<Rightarrow> orderBy opts) of
                   None \<Rightarrow> filtered
                 | Some [] \<Rightarrow> filtered
                 | Some (ob # obs) \<Rightarrow> js_sort (compare_by rt (ob # obs)) filtered);
              total = int (length sorted);
              off = (case (case options of None \<Rightarrow> None | Some opts \<Rightarrow> offset opts) of
                       None \<Rightarrow> 0 | Some n \<Rightarrow> n);
              lim = (case (case options of None \<Rightarrow> None | Some opts \<Rightarrow> limit opts) of
                       None \<Rightarrow> 50 | Some n \<Rightarrow> n);
              page = js_slice sorted off (off + lim)
          in (Inr \<lparr>pr_data = page, pr_count = total, pr_limit = lim, pr_offset = off,
                    hasMore = (off + lim < total)\<rparr>, st1))"

definition InMemoryAdapter_findOne :: "mem_state \<Rightarrow> string \<Rightarrow> string
    \<Rightarrow> DataRecord option \<times> mem_state" where
  "InMemoryAdapter_findOne st table i =
     (let (records, st1) = getTable st table
      in (find (\<lambda>r. get r ''id'' = JStr i) records, st1))"

text \<open>
  \<open>create\<close>: the clock is read, then \<open>uuid()\<close> is called; the spread puts the three
  generated properties over those of \<open>data\<close>.
\<close>

definition InMemoryAdapter_create :: "runtime \<Rightarrow> mem_state \<Rightarrow> string \<Rightarrow> DataRecord
    \<Rightarrow> DataRecord \<times> mem_state" where
  "InMemoryAdapter_create rt st table d =
     (let now = Date_toISOString rt (tick st);
          (u, st1) = uuid rt (st\<lparr>tick := tick st + 1\<rparr>);
          created = AList.update ''updated_at'' (JStr now)
                     (AList.update ''created_at'' (JStr now)
                        (AList.update ''id'' (JStr u) d));
          (records, st2) = getTable st1 table
      in (created, st2\<lparr>tables := AList.update table (records @ [created]) (tables st2)\<rparr>))"

text \<open>
  \<open>createMany\<close>: \<open>Promise.all(items.map(d => this.create(table, d)))\<close>. The body of
  \<open>create\<close> has no \<open>await\<close>, so each call runs to its end inside \<open>map\<close>, one item after the
  other; \<open>Promise.all\<close> answers in the order of its argument.
\<close>

fun InMemoryAdapter_createMany :: "runtime \<Rightarrow> mem_state \<Rightarrow> string \<Rightarrow> DataRecord list
    \<Rightarrow> DataRecord list \<times> mem_state" where
  "InMemoryAdapter_createMany rt st table [] = ([], st)"
| "InMemoryAdapter_createMany rt st table (d # ds) =
     (let (r, st1) = InMemoryAdapter_create rt st table d;
          (rs, st2) = InMemoryAdapter_createMany rt st1 table ds
      in (r # rs, st2))"

text \<open>\<open>records.findIndex(p)\<close>: \<open>None\<close> for \<open>-1\<close>.\<close>

fun findIndex :: "('a \<Rightarrow> bool) \<Rightarrow> 'a list \<Rightarrow> nat option" where
  "findIndex p [] = None"
| "findIndex p (x # xs) =
     (if p x then Some 0 else map_option Suc (findIndex p xs))"

text \<open>\<open>{...existing, ...data}\<close>.\<close>

definition spread :: "DataRecord \<Rightarrow> DataRecord \<Rightarrow> DataRecord" where
  "spread existing d = fold (\<lambda>(k, v) acc. AList.update k v acc) d existing"

definition InMemoryAdapter_update :: "runtime \<Rightarrow> mem_state \<Rightarrow> string \<Rightarrow> string \<Rightarrow> DataRecord
    \<Rightarrow> (thrown + DataRecord) \<times> mem_state" where
  "InMemoryAdapter_update rt st table i d =
     (let (records, st1) = getTable st table in
      case findIndex (\<lambda>r. get r ''id'' = JStr i) records of
        None \<Rightarrow> (Inl (DataError (''Not found: '' @ i) NOT_FOUND), st1)
      | Some idx \<Rightarrow>
          let existing = records ! idx;
              updated = AList.update ''updated_at'' (JStr (Date_toISOString rt (tick st1)))
                          (AList.update ''id'' (get existing ''id'') (spread existing d))
          in (Inr updated,
              st1\<lparr>tables := AList.update table (records[idx := updated]) (tables st1),
                  tick := tick st1 + 1\<rparr>))"

text \<open>\<open>delete\<close>: \<open>records.splice(idx, 1)\<close> takes out the record at \<open>idx\<close>.\<close>

definition InMemoryAdapter_delete :: "mem_state \<Rightarrow> string \<Rightarrow> string \<Rightarrow> (thrown + unit) \<times> mem_state" where
  "InMemoryAdapter_delete st table i =
     (let (records, st1) = getTable st table in
      case findIndex (\<lambda>r. get r ''id'' = JStr i) records of
        None \<Rightarrow> (Inl (DataError (''Not found: '' @ i) NOT_FOUND), st1)
      | Some idx \<Rightarrow>
          (Inr (),
           st1\<lparr>tables := AList.update table (take idx records @ drop (Suc idx) records)
                            (tables st1)\<rparr>))"

definition InMemoryAdapter_deleteMany :: "runtime \<Rightarrow> mem_state \<Rightarrow> string \<Rightarrow> QueryFilter list
    \<Rightarrow> (thrown + int) \<times> mem_state" where
  "InMemoryAdapter_deleteMany rt st table fs =
     (let (records, st1) = getTable st table in
      case applyFilters rt records (Some fs) of
        Inl e \<Rightarrow> (Inl e, st1)
      | Inr toDelete \<Rightarrow>
          let ids = map (\<lambda>r. get r ''id'') toDelete;
              count_before = int (length records);
              kept = filter (\<lambda>r. get r ''id'' \<notin> set ids) records
          in (Inr (count_before - int (length kept)),
              st1\<lparr>tables := AList.update table kept (tables st1)\<rparr>))"

definition InMemoryAdapter_count :: "runtime \<Rightarrow> mem_state \<Rightarrow> string \<Rightarrow> QueryFilter list option
    \<Rightarrow> (thrown + int) \<times> mem_state" where
  "InMemoryAdapter_count rt st table fs =
     (let (records, st1) = getTable st table in
      case applyFilters rt records fs of
        Inl e \<Rightarrow> (Inl e, st1)
      | Inr matching \<Rightarrow> (Inr (int (length matching)), st1))"

definition InMemoryAdapter_healthCheck :: "mem_state \<Rightarrow> (thrown + health) \<times> mem_state" where
  "InMemoryAdapter_healthCheck st = (Inr \<lparr>ok = True, latencyMs = 0\<rparr>, st)"

text \<open>The adapter as an implementation of the interface.\<close>

definition InMemoryAdapter :: "runtime \<Rightarrow> mem_state DataAdapter" where
  "InMemoryAdapter rt =
     \<lparr>ad_findMany = InMemoryAdapter_findMany rt,
      ad_findOne = (\<lambda>st table i. case InMemoryAdapter_findOne st table i of (r, st') \<Rightarrow> (Inr r, st')),
      ad_create = (\<lambda>st table d. case InMemoryAdapter_create rt st table d of (r, st') \<Rightarrow> (Inr r, st')),
      ad_createMany =
        (\<lambda>st table ds. case InMemoryAdapter_createMany rt st table ds of (rs, st') \<Rightarrow> (Inr rs, st')),
      ad_update = InMemoryAdapter_update rt,
      ad_delete = InMemoryAdapter_delete,
      ad_deleteMany = InMemoryAdapter_deleteMany rt,
      ad_count = InMemoryAdapter_count rt,
      ad_healthCheck = InMemoryAdapter_healthCheck\<rparr>"

section \<open>The Supabase adapter (\<open>SupabaseAdapter\<close> in core/src/adapters/supabase.ts)\<close>

text \<open>
  The Supabase client is outside the repository. What \<open>findMany\<close> builds is handed to it
  as a \<open>query\<close>; awaiting the query either rejects or gives a \<open>response\<close>: \<open>data\<close>,
  \<open>error\<close> (its message) and \<open>count\<close>, each possibly \<open>null\<close>.
\<close>

record query =
  q_table :: string
  q_select :: string
  q_filters :: "QueryFilter list"
  q_order :: "(string \<times> bool) list"
  q_range :: "int \<times> int"

record response =
  rs_data :: "DataRecord list option"
  rs_error :: "string option"
  rs_count :: "int option"

definition SupabaseAdapter_findMany :: "(query \<Rightarrow> thrown + response) \<Rightarrow> string
    \<Rightarrow> QueryOptions option \<Rightarrow> thrown + PaginatedResult" where
  "SupabaseAdapter_findMany client table options =
     (let lim = (case (case options of None \<Rightarrow> None | Some opts \<Rightarrow> limit opts) of
                   None \<Rightarrow> 50 | Some n \<Rightarrow> n);
          off = (case (case options of None \<Rightarrow> None | Some opts \<Rightarrow> offset opts) of
                   None \<Rightarrow> 0 | Some n \<Rightarrow> n);
          selectCols = (case (case options of None \<Rightarrow> None | Some opts \<Rightarrow> select opts) of
                          None \<Rightarrow> ''*'' | Some cols \<Rightarrow> js_join '', '' cols);
          awaited = client
                  \<lparr>q_table = table,
                   q_select = selectCols,
                   q_filters = (case (case options of None \<Rightarrow> None | Some opts \<Rightarrow> filters opts) of
                                  None \<Rightarrow> [] | Some fs \<Rightarrow> fs),
                   q_order = (case (case options of None \<Rightarrow> None | Some opts \<Rightarrow> orderBy opts) of
                                None \<Rightarrow> []
                              | Some obs \<Rightarrow> map (\<lambda>ob. (ob_field ob, ob_direction ob = asc)) obs),
                   q_range = (off, off + lim - 1)\<rparr>
      in case awaited of
           Inl rejected \<Rightarrow> Inl rejected
         | Inr res \<Rightarrow>
             (case rs_error res of
                Some msg \<Rightarrow> Inl (Error (''Supabase findMany error: '' @ msg))
              | None \<Rightarrow>
                  let totalCount = (case rs_count res of None \<Rightarrow> 0 | Some n \<Rightarrow> n);
                      rows = (case rs_data res of None \<Rightarrow> [] | Some d \<Rightarrow> d)
                  in Inr \<lparr>pr_data = rows, pr_count = totalCount, pr_limit = lim, pr_offset = off,
                          hasMore = (off + int (length rows) < totalCount)\<rparr>))"

section \<open>Reference definitions and sample inputs\<close>

text \<open>
  The naming rule for tables in the words of the specification: a letter or an underscore,
  followed by up to 62 letters, digits or underscores.
\<close>

definition is_letter :: "char \<Rightarrow> bool" where
  "is_letter c =
     ((97 \<le> (of_char c :: nat) \<and> (of_char c :: nat) \<le> 122) \<or>
      (65 \<le> (of_char c :: nat) \<and> (of_char c :: nat) \<le> 90))"

definition spec_table_name :: "string \<Rightarrow> bool" where
  "spec_table_name s =
     (case s of
        [] \<Rightarrow> False
      | c # rest \<Rightarrow>
          (is_letter c \<or> c = CHR ''_'') \<and> length rest \<le> 62 \<and>
          list_all (\<lambda>d. is_letter d \<or> is_digit d \<or> d = CHR ''_'') rest)"

text \<open>
  A runtime to evaluate the adapter on: the identifier of reading \<open>n\<close> is \<open>n\<close> times
  the letter \<open>u\<close>, a clock
  that advances with every reading, and comparisons that order numbers and nothing else.
\<close>

definition num_cmp :: "(int \<Rightarrow> int \<Rightarrow> bool) \<Rightarrow> jsval \<Rightarrow> jsval \<Rightarrow> bool" where
  "num_cmp rel a b = (case (a, b) of (JNum x, JNum y) \<Rightarrow> rel x y | _ \<Rightarrow> False)"

definition sample_runtime :: runtime where
  "sample_runtime =
     \<lparr>crypto_randomUUID = Some (\<lambda>n. replicate n CHR ''u''),
      Date_now = int,
      Date_toISOString = (\<lambda>n. ''T'' @ show_nat n),
      Math_random36 = (\<lambda>n. ''r'' @ show_nat n),
      strict_eq = (=),
      less_than = num_cmp (<),
      less_eq_js = num_cmp (\<le>),
      greater_than = num_cmp (>),
      greater_eq_js = num_cmp (\<ge>),
      to_String = (\<lambda>v. case v of JStr s \<Rightarrow> s | _ \<Rightarrow> []),
      toLowerCase = id,
      js_includes = (\<lambda>x v. case x of JArr xs \<Rightarrow> Inr (v \<in> set xs)
                              | _ \<Rightarrow> Inl (Error ''includes is not a function''))\<rparr>"

definition empty_state :: mem_state where
  "empty_state = \<lparr>tables = [], counter = 0, tick = 0\<rparr>"

text \<open>An adapter whose backend cannot be reached: every call rejects.\<close>

definition unreachable :: thrown where
  "unreachable = Error ''fetch failed''"

definition failing_adapter :: "unit DataAdapter" where
  "failing_adapter =
     \<lparr>ad_findMany = (\<lambda>s table options. (Inl unreachable, s)),
      ad_findOne = (\<lambda>s table i. (Inl unreachable, s)),
      ad_create = (\<lambda>s table d. (Inl unreachable, s)),
      ad_createMany = (\<lambda>s table ds. (Inl unreachable, s)),
      ad_update = (\<lambda>s table i d. (Inl unreachable, s)),
      ad_delete = (\<lambda>s table i. (Inl unreachable, s)),
      ad_deleteMany = (\<lambda>s table fs. (Inl unreachable, s)),
      ad_count = (\<lambda>s table fs. (Inl unreachable, s)),
      ad_healthCheck = (\<lambda>s. (Inl unreachable, s))\<rparr>"

text \<open>
  What \<open>create\<close> computes, written out. \<open>uuid_value rt k c\<close> is what \<open>uuid()\<close> returns when
  \<open>k\<close> runtime readings have been made and the counter stands at \<open>c\<close>;
  \<open>created_record rt k c d\<close> is the record \<open>create\<close> builds from \<open>d\<close> then. A call of
  \<open>create\<close> makes \<open>ticks_per_create\<close> readings and moves the counter by
  \<open>counters_per_create\<close>; \<open>created_list\<close> is the records of successive calls.
\<close>

definition uuid_value :: "runtime \<Rightarrow> nat \<Rightarrow> nat \<Rightarrow> string" where
  "uuid_value rt k c =
     (case crypto_randomUUID rt of
        Some randomUUID \<Rightarrow> randomUUID k
      | None \<Rightarrow> ''mem-'' @ show_int (Date_now rt k) @ ''-'' @ show_nat (c + 1) @ ''-''
                 @ Math_random36 rt (k + 1))"

definition ticks_per_create :: "runtime \<Rightarrow> nat" where
  "ticks_per_create rt = (case crypto_randomUUID rt of Some g \<Rightarrow> 2 | None \<Rightarrow> 3)"

definition counters_per_create :: "runtime \<Rightarrow> nat" where
  "counters_per_create rt = (case crypto_randomUUID rt of Some g \<Rightarrow> 0 | None \<Rightarrow> 1)"

definition created_record :: "runtime \<Rightarrow> nat \<Rightarrow> nat \<Rightarrow> DataRecord \<Rightarrow> DataRecord" where
  "created_record rt k c d =
     AList.update ''updated_at'' (JStr (Date_toISOString rt k))
       (AList.update ''created_at'' (JStr (Date_toISOString rt k))
          (AList.update ''id'' (JStr (uuid_value rt (k + 1) c)) d))"

fun created_list :: "runtime \<Rightarrow> nat \<Rightarrow> nat \<Rightarrow> DataRecord list \<Rightarrow> DataRecord list" where
  "created_list rt k c [] = []"
| "created_list rt k c (d # ds) =
     created_record rt k c d
       # created_list rt (k + ticks_per_create rt) (c + counters_per_create rt) ds"

text \<open>A table of three users, and a service over it with three cached records.\<close>

definition sample_state :: mem_state where
  "sample_state =
     \<lparr>tables = [(''users'', [[(''id'', JStr ''a1'')], [(''id'', JStr ''a2'')], [(''id'', JStr ''a3'')]])],
      counter = 0,
      tick = 6\<rparr>"

definition sample_service :: "mem_state DataService" where
  "sample_service =
     \<lparr>adapter = sample_state,
      cache = [(''users:a1'', \<lparr>data = [(''id'', JStr ''a1'')], expiresAt = 1000\<rparr>),
               (''users:a2'', \<lparr>data = [(''id'', JStr ''a2'')], expiresAt = 1000\<rparr>),
               (''posts:p1'', \<lparr>data = [(''id'', JStr ''p1'')], expiresAt = 1000\<rparr>)],
      cacheTtlMs = 1000,
      allowedTables = None\<rparr>"

definition sample_items :: "DataRecord list" where
  "sample_items = [[(''name'', JStr ''ann'')], [(''id'', JNum 7)]]"

definition page_options :: "int \<Rightarrow> int \<Rightarrow> QueryOptions option" where
  "page_options lim off =
     Some \<lparr>filters = None, orderBy = None, limit = Some lim, offset = Some off, select = None\<rparr>"

text \<open>A Supabase client that answers every query with one row out of three.\<close>

definition sample_client :: "query \<Rightarrow> thrown + response" where
  "sample_client q =
     Inr \<lparr>rs_data = Some [[(''id'', JStr ''a1'')]], rs_error = None, rs_count = Some 3\<rparr>"

text \<open>The sample runtime without \<open>crypto.randomUUID\<close>.\<close>

definition fallback_runtime :: runtime where
  "fallback_runtime = sample_runtime\<lparr>crypto_randomUUID := None\<rparr>"

section \<open>Properties of the parsers\<close>

lemma js_split_nonempty: "js_split sep s \<noteq> []"
  by (induction s) (auto split: list.splits)

lemma js_split_no_sep: "sep \<notin> set f \<Longrightarrow> js_split sep f = [f]"
  by (induction f) auto

lemma js_split_append:
  "sep \<notin> set f \<Longrightarrow> js_split sep (f @ sep # rest) = f # js_split sep rest"
  by (induction f) auto

lemma js_split_segments: "p \<in> set (js_split sep s) \<Longrightarrow> sep \<notin> set p"
proof (induction s arbitrary: p)
  case Nil
  then show ?case by simp
next
  case (Cons c cs)
  obtain q qs where q: "js_split sep cs = q # qs"
    using js_split_nonempty [of sep cs] by (cases "js_split sep cs") auto
  show ?case
  proof (cases "c = sep")
    case True
    with Cons show ?thesis by auto
  next
    case False
    with Cons.prems q have "p = c # q \<or> p \<in> set qs" by auto
    then show ?thesis
    proof
      assume "p = c # q"
      moreover have "sep \<notin> set q" using Cons.IH [of q] q by simp
      ultimately show ?thesis using False by auto
    next
      assume "p \<in> set qs"
      then show ?thesis using Cons.IH [of p] q by simp
    qed
  qed
qed

lemma js_join_split: "js_join [sep] (js_split sep s) = s"
proof (induction s)
  case Nil
  show ?case by simp
next
  case (Cons c cs)
  obtain p ps where ps: "js_split sep cs = p # ps"
    using js_split_nonempty [of sep cs] by (cases "js_split sep cs") auto
  show ?case
  proof (cases "c = sep")
    case True
    with Cons ps show ?thesis by auto
  next
    case False
    with Cons ps show ?thesis
      by (cases ps) auto
  qed
qed

lemma map_throwing_first_Inl:
  "(\<And>x. x \<in> set pre \<Longrightarrow> \<exists>y. f x = Inr y) \<Longrightarrow> f s = Inl e
     \<Longrightarrow> map_throwing f (pre @ s # post) = Inl e"
proof (induction pre)
  case Nil
  then show ?case by simp
next
  case (Cons a pre)
  then obtain y where "f a = Inr y" by auto
  moreover have "map_throwing f (pre @ s # post) = Inl e"
    using Cons by simp
  ultimately show ?case by simp
qed

lemma parseFilter_three:
  assumes "CHR '':'' \<notin> set f" "CHR '':'' \<notin> set opr"
  shows "parseFilter JP (f @ '':'' @ opr @ '':'' @ v) =
           Inr \<lparr>field = f, operator = opr, val = (case JP v of Some j \<Rightarrow> j | None \<Rightarrow> JStr v)\<rparr>"
proof -
  have sp: "js_split CHR '':'' (f @ '':'' @ opr @ '':'' @ v) = f # opr # js_split CHR '':'' v"
    using assms by (simp add: js_split_append)
  have len: "\<not> length (f # opr # js_split CHR '':'' v) < 3"
    using js_split_nonempty [of "CHR '':''" v] by (cases "js_split CHR '':'' v") auto
  show ?thesis
    unfolding parseFilter_def sp Let_def using len
    by (simp add: js_join_split split: option.splits)
qed

lemma three_segments_form:
  assumes "3 \<le> length (js_split CHR '':'' s)"
  shows "\<exists>f opr v. s = f @ '':'' @ opr @ '':'' @ v \<and> CHR '':'' \<notin> set f \<and> CHR '':'' \<notin> set opr"
proof -
  have "\<exists>f opr r rs. js_split CHR '':'' s = f # opr # r # rs"
    using assms by (auto simp: numeral_3_eq_3 Suc_le_length_iff)
  then obtain f opr r rs where sp: "js_split CHR '':'' s = f # opr # r # rs"
    by blast
  have "s = js_join '':'' (js_split CHR '':'' s)"
    using js_join_split [of "CHR '':''" s] by simp
  then have "s = f @ '':'' @ opr @ '':'' @ js_join '':'' (r # rs)"
    using sp by simp
  moreover have "CHR '':'' \<notin> set f" "CHR '':'' \<notin> set opr"
    using js_split_segments [of _ "CHR '':''" s] sp by auto
  ultimately show ?thesis by blast
qed

lemma map_throwing_map_Inr:
  "(\<And>x. x \<in> set xs \<Longrightarrow> f (r x) = Inr (g x)) \<Longrightarrow>
     map_throwing f (map r xs) = Inr (map g xs)"
  by (induction xs) auto

lemma parseFilters_array:
  assumes "\<forall>(f, opr, v) \<in> set triples. CHR '':'' \<notin> set f \<and> CHR '':'' \<notin> set opr"
  shows "parseFilters JP (Arr (map (\<lambda>(f, opr, v). f @ '':'' @ opr @ '':'' @ v) triples)) =
           Inr (map (\<lambda>(f, opr, v).
                  \<lparr>field = f, operator = opr,
                   val = (case JP v of Some j \<Rightarrow> j | None \<Rightarrow> JStr v)\<rparr>) triples)"
proof -
  have "parseFilter JP ((\<lambda>(f, opr, v). f @ '':'' @ opr @ '':'' @ v) tr) =
      Inr ((\<lambda>(f, opr, v).
             \<lparr>field = f, operator = opr,
              val = (case JP v of Some j \<Rightarrow> j | None \<Rightarrow> JStr v)\<rparr>) tr)"
    if "tr \<in> set triples" for tr
  proof -
    obtain f opr v where tr: "tr = (f, opr, v)"
      by (cases tr) auto
    with that assms have "CHR '':'' \<notin> set f" "CHR '':'' \<notin> set opr"
      by auto
    then show ?thesis
      unfolding tr prod.case by (rule parseFilter_three)
  qed
  then show ?thesis
    unfolding parseFilters_def falsy.simps items_of.simps if_False
    by (rule map_throwing_map_Inr)
qed

lemma well_formed_items_are_triples:
  assumes "\<forall>s \<in> set items. 3 \<le> length (js_split CHR '':'' s)"
  shows "\<exists>triples. items = map (\<lambda>(f, opr, v). f @ '':'' @ opr @ '':'' @ v) triples \<and>
           (\<forall>(f, opr, v) \<in> set triples. CHR '':'' \<notin> set f \<and> CHR '':'' \<notin> set opr)"
  using assms
proof (induction items)
  case Nil
  show ?case
    by (rule exI [of _ "[]"]) simp
next
  case (Cons s items)
  then obtain triples where
    ts: "items = map (\<lambda>(f, opr, v). f @ '':'' @ opr @ '':'' @ v) triples"
      "\<forall>(f, opr, v) \<in> set triples. CHR '':'' \<notin> set f \<and> CHR '':'' \<notin> set opr"
    by auto
  from Cons.prems have "3 \<le> length (js_split CHR '':'' s)"
    by simp
  then obtain f opr v where
    s: "s = f @ '':'' @ opr @ '':'' @ v" "CHR '':'' \<notin> set f" "CHR '':'' \<notin> set opr"
    using three_segments_form by blast
  show ?case
    using ts s by (intro exI [of _ "(f, opr, v) # triples"]) simp
qed

text \<open>
  Claim C6. A raw filter with at least three colon-separated segments is
  \<open>field:operator:value\<close>, where the value segment is all that follows the second colon.
  The parsed filter's value is what \<open>JSON.parse\<close> gives for the value segment when it
  parses, and the segment itself as a string when it does not; so \<open>age:gte:18\<close> has the
  number 18 as its value and \<open>name:eq:bob\<close> the string \<open>bob\<close>. This holds for a string
  given alone and for every item of an array: an array of such filters is parsed item by
  item, in order, into as many filters.
\<close>

theorem parseFilters_value:
  "(3 \<le> length (js_split CHR '':'' s) \<longrightarrow>
      (\<exists>f opr v. s = f @ '':'' @ opr @ '':'' @ v \<and> CHR '':'' \<notin> set f \<and> CHR '':'' \<notin> set opr \<and>
         parseFilters JP (Str s) =
           Inr [\<lparr>field = f, operator = opr, val = (case JP v of Some j \<Rightarrow> j | None \<Rightarrow> JStr v)\<rparr>] \<and>
         parseFilters JP (Arr [s]) =
           Inr [\<lparr>field = f, operator = opr, val = (case JP v of Some j \<Rightarrow> j | None \<Rightarrow> JStr v)\<rparr>])) \<and>
   (JP ''18'' = Some (JNum 18) \<longrightarrow>
      parseFilters JP (Str ''age:gte:18'') = Inr [\<lparr>field = ''age'', operator = ''gte'', val = JNum 18\<rparr>]) \<and>
   (JP ''bob'' = None \<longrightarrow>
      parseFilters JP (Str ''name:eq:bob'') =
        Inr [\<lparr>field = ''name'', operator = ''eq'', val = JStr ''bob''\<rparr>]) \<and>
   ((\<forall>(f, opr, v) \<in> set triples. CHR '':'' \<notin> set f \<and> CHR '':'' \<notin> set opr) \<longrightarrow>
      parseFilters JP (Arr (map (\<lambda>(f, opr, v). f @ '':'' @ opr @ '':'' @ v) triples)) =
        Inr (map (\<lambda>(f, opr, v).
               \<lparr>field = f, operator = opr,
                val = (case JP v of Some j \<Rightarrow> j | None \<Rightarrow> JStr v)\<rparr>) triples)) \<and>
   ((\<forall>s \<in> set items. 3 \<le> length (js_split CHR '':'' s)) \<longrightarrow>
      (\<exists>ts. items = map (\<lambda>(f, opr, v). f @ '':'' @ opr @ '':'' @ v) ts \<and>
         (\<forall>(f, opr, v) \<in> set ts. CHR '':'' \<notin> set f \<and> CHR '':'' \<notin> set opr) \<and>
         parseFilters JP (Arr items) =
           Inr (map (\<lambda>(f, opr, v).
                  \<lparr>field = f, operator = opr,
                   val = (case JP v of Some j \<Rightarrow> j | None \<Rightarrow> JStr v)\<rparr>) ts)))"
proof (intro conjI impI)
  assume "\<forall>(f, opr, v) \<in> set triples. CHR '':'' \<notin> set f \<and> CHR '':'' \<notin> set opr"
  then show "parseFilters JP (Arr (map (\<lambda>(f, opr, v). f @ '':'' @ opr @ '':'' @ v) triples)) =
        Inr (map (\<lambda>(f, opr, v).
               \<lparr>field = f, operator = opr,
                val = (case JP v of Some j \<Rightarrow> j | None \<Rightarrow> JStr v)\<rparr>) triples)"
    by (rule parseFilters_array)
next
  assume "\<forall>s \<in> set items. 3 \<le> length (js_split CHR '':'' s)"
  then obtain ts where ts: "items = map (\<lambda>(f, opr, v). f @ '':'' @ opr @ '':'' @ v) ts"
    "\<forall>(f, opr, v) \<in> set ts. CHR '':'' \<notin> set f \<and> CHR '':'' \<notin> set opr"
    using well_formed_items_are_triples by blast
  have "parseFilters JP (Arr items) =
      Inr (map (\<lambda>(f, opr, v).
             \<lparr>field = f, operator = opr,
              val = (case JP v of Some j \<Rightarrow> j | None \<Rightarrow> JStr v)\<rparr>) ts)"
    unfolding ts(1) using ts(2) by (rule parseFilters_array)
  with ts show "\<exists>ts. items = map (\<lambda>(f, opr, v). f @ '':'' @ opr @ '':'' @ v) ts \<and>
         (\<forall>(f, opr, v) \<in> set ts. CHR '':'' \<notin> set f \<and> CHR '':'' \<notin> set opr) \<and>
         parseFilters JP (Arr items) =
           Inr (map (\<lambda>(f, opr, v).
                  \<lparr>field = f, operator = opr,
                   val = (case JP v of Some j \<Rightarrow> j | None \<Rightarrow> JStr v)\<rparr>) ts)"
    by blast
next
  assume three: "3 \<le> length (js_split CHR '':'' s)"
  then obtain f opr v where
    s: "s = f @ '':'' @ opr @ '':'' @ v" and f: "CHR '':'' \<notin> set f" and o: "CHR '':'' \<notin> set opr"
    using three_segments_form by blast
  have pf: "parseFilter JP s =
      Inr \<lparr>field = f, operator = opr, val = (case JP v of Some j \<Rightarrow> j | None \<Rightarrow> JStr v)\<rparr>"
    unfolding s using f o by (rule parseFilter_three)
  have ne: "s \<noteq> []" using s by simp
  show "\<exists>f opr v. s = f @ '':'' @ opr @ '':'' @ v \<and> CHR '':'' \<notin> set f \<and> CHR '':'' \<notin> set opr \<and>
         parseFilters JP (Str s) =
           Inr [\<lparr>field = f, operator = opr, val = (case JP v of Some j \<Rightarrow> j | None \<Rightarrow> JStr v)\<rparr>] \<and>
         parseFilters JP (Arr [s]) =
           Inr [\<lparr>field = f, operator = opr, val = (case JP v of Some j \<Rightarrow> j | None \<Rightarrow> JStr v)\<rparr>]"
    using s f o pf ne by (intro exI [of _ f] exI [of _ opr] exI [of _ v]) (simp add: parseFilters_def)
next
  assume jp: "JP ''18'' = Some (JNum 18)"
  have "parseFilter JP (''age'' @ '':'' @ ''gte'' @ '':'' @ ''18'') =
      Inr \<lparr>field = ''age'', operator = ''gte'',
           val = (case JP ''18'' of Some j \<Rightarrow> j | None \<Rightarrow> JStr ''18'')\<rparr>"
    by (rule parseFilter_three) simp_all
  then show "parseFilters JP (Str ''age:gte:18'') =
      Inr [\<lparr>field = ''age'', operator = ''gte'', val = JNum 18\<rparr>]"
    using jp by (simp add: parseFilters_def)
next
  assume jp: "JP ''bob'' = None"
  have "parseFilter JP (''name'' @ '':'' @ ''eq'' @ '':'' @ ''bob'') =
      Inr \<lparr>field = ''name'', operator = ''eq'',
           val = (case JP ''bob'' of Some j \<Rightarrow> j | None \<Rightarrow> JStr ''bob'')\<rparr>"
    by (rule parseFilter_three) simp_all
  then show "parseFilters JP (Str ''name:eq:bob'') =
      Inr [\<lparr>field = ''name'', operator = ''eq'', val = JStr ''bob''\<rparr>]"
    using jp by (simp add: parseFilters_def)
qed

lemma JSON_parse_literals_18: "JSON_parse_literals ''18'' = Some (JNum 18)"
  by (simp add: JSON_parse_literals_def is_digit_def digit_val_def)

lemma JSON_parse_literals_bob: "JSON_parse_literals ''bob'' = None"
  by (simp add: JSON_parse_literals_def is_digit_def)

theorem parseFilters_value_witness:
  "3 \<le> length (js_split CHR '':'' ''age:gte:18'') \<and>
   JSON_parse_literals ''18'' = Some (JNum 18) \<and>
   JSON_parse_literals ''bob'' = None \<and>
   parseFilters JSON_parse_literals (Str ''age:gte:18'') =
     Inr [\<lparr>field = ''age'', operator = ''gte'', val = JNum 18\<rparr>] \<and>
   parseFilters JSON_parse_literals (Str ''name:eq:bob'') =
     Inr [\<lparr>field = ''name'', operator = ''eq'', val = JStr ''bob''\<rparr>] \<and>
   parseFilters JSON_parse_literals (Arr [''age:gte:18'', ''name:eq:bob'']) =
     Inr [\<lparr>field = ''age'', operator = ''gte'', val = JNum 18\<rparr>,
          \<lparr>field = ''name'', operator = ''eq'', val = JStr ''bob''\<rparr>]"
proof -
  let ?triples = "[(''age'', ''gte'', ''18''), (''name'', ''eq'', ''bob'')]"
  note v = parseFilters_value [of "''age:gte:18''" JSON_parse_literals ?triples
      "[''age:gte:18'', ''name:eq:bob'']"]
  note v2 = v [THEN conjunct2, THEN conjunct1]
  note v3 = v [THEN conjunct2, THEN conjunct2, THEN conjunct1]
  note v4 = v [THEN conjunct2, THEN conjunct2, THEN conjunct2, THEN conjunct1]
  note v5 = v [THEN conjunct2, THEN conjunct2, THEN conjunct2, THEN conjunct2]
  have a: "parseFilters JSON_parse_literals (Str ''age:gte:18'') =
     Inr [\<lparr>field = ''age'', operator = ''gte'', val = JNum 18\<rparr>]"
    using v2 JSON_parse_literals_18 by (rule mp)
  have b: "parseFilters JSON_parse_literals (Str ''name:eq:bob'') =
     Inr [\<lparr>field = ''name'', operator = ''eq'', val = JStr ''bob''\<rparr>]"
    using v3 JSON_parse_literals_bob by (rule mp)
  have c: "3 \<le> length (js_split CHR '':'' ''age:gte:18'')"
    by simp
  have wf: "\<forall>(f, opr, v) \<in> set ?triples. CHR '':'' \<notin> set f \<and> CHR '':'' \<notin> set opr"
    by simp
  have items: "\<forall>s \<in> set [''age:gte:18'', ''name:eq:bob'']. 3 \<le> length (js_split CHR '':'' s)"
    by simp
  have "parseFilters JSON_parse_literals
      (Arr (map (\<lambda>(f, opr, v). f @ '':'' @ opr @ '':'' @ v) ?triples)) =
    Inr (map (\<lambda>(f, opr, v).
           \<lparr>field = f, operator = opr,
            val = (case JSON_parse_literals v of Some j \<Rightarrow> j | None \<Rightarrow> JStr v)\<rparr>) ?triples)"
    using v4 wf by (rule mp)
  then have d: "parseFilters JSON_parse_literals (Arr [''age:gte:18'', ''name:eq:bob'']) =
     Inr [\<lparr>field = ''age'', operator = ''gte'', val = JNum 18\<rparr>,
          \<lparr>field = ''name'', operator = ''eq'', val = JStr ''bob''\<rparr>]"
    by (simp add: JSON_parse_literals_18 JSON_parse_literals_bob)
  note e = mp [OF v5 items]
  from a b c d JSON_parse_literals_18 JSON_parse_literals_bob show ?thesis
    by (intro conjI)
qed

text \<open>
  Claim C7, as the code has it. A filter string with fewer than three colon-separated
  segments makes \<open>parseFilters\<close> throw a plain \<open>Error\<close>, which carries no code, with the
  message \<open>Invalid filter format: <input> (expected field:op:value)\<close>: for a non-empty
  string given alone, and for the first such item of an array. The empty string given
  alone is read as no filter at all.
\<close>

theorem parseFilters_malformed:
  assumes "length (js_split CHR '':'' s) < 3"
  shows "(s \<noteq> [] \<longrightarrow>
            parseFilters JP (Str s) =
              Inl (Error (''Invalid filter format: '' @ s @ '' (expected field:op:value)''))) \<and>
         ((\<forall>p \<in> set pre. 3 \<le> length (js_split CHR '':'' p)) \<longrightarrow>
            parseFilters JP (Arr (pre @ s # post)) =
              Inl (Error (''Invalid filter format: '' @ s @ '' (expected field:op:value)''))) \<and>
         parseFilters JP (Str []) = Inr [] \<and>
         code (Error (''Invalid filter format: '' @ s @ '' (expected field:op:value)'')) = None"
proof -
  let ?e = "Error (''Invalid filter format: '' @ s @ '' (expected field:op:value)'')"
  have bad: "parseFilter JP s = Inl ?e"
    using assms by (simp add: parseFilter_def)
  have good: "\<exists>y. parseFilter JP p = Inr y" if "3 \<le> length (js_split CHR '':'' p)" for p
    using that by (simp add: parseFilter_def Let_def split: option.splits)
  have "parseFilters JP (Arr (pre @ s # post)) = Inl ?e"
    if "\<forall>p \<in> set pre. 3 \<le> length (js_split CHR '':'' p)"
    unfolding parseFilters_def using that good bad
    by (simp add: map_throwing_first_Inl)
  moreover have "s \<noteq> [] \<longrightarrow> parseFilters JP (Str s) = Inl ?e"
    using bad by (simp add: parseFilters_def)
  moreover have "parseFilters JP (Str []) = Inr []"
    by (simp add: parseFilters_def)
  ultimately show ?thesis by simp
qed

theorem parseFilters_malformed_witness:
  "length (js_split CHR '':'' ''age:18'') < 3 \<and>
   parseFilters JSON_parse_literals (Str ''age:18'') =
     Inl (Error ''Invalid filter format: age:18 (expected field:op:value)'') \<and>
   parseFilters JSON_parse_literals (Arr [''age:gte:18'', ''age:18'', ''x'']) =
     Inl (Error ''Invalid filter format: age:18 (expected field:op:value)'')"
proof -
  have len: "length (js_split CHR '':'' ''age:18'') < 3"
    by simp
  have pre: "\<forall>p \<in> set [''age:gte:18'']. 3 \<le> length (js_split CHR '':'' p)"
    by simp
  note m = parseFilters_malformed [OF len, of JSON_parse_literals "[''age:gte:18'']" "[''x'']"]
  have "parseFilters JSON_parse_literals (Str ''age:18'') =
     Inl (Error (''Invalid filter format: '' @ ''age:18'' @ '' (expected field:op:value)''))"
    using m by blast
  moreover have "parseFilters JSON_parse_literals (Arr ([''age:gte:18''] @ ''age:18'' # [''x''])) =
     Inl (Error (''Invalid filter format: '' @ ''age:18'' @ '' (expected field:op:value)''))"
    using m pre by blast
  ultimately show ?thesis using len by simp
qed

theorem parseFilters_malformed_not_VALIDATION:
  "(case parseFilters JSON_parse_literals (Str ''age:18'') of
      Inl e \<Rightarrow> code e
    | Inr fs \<Rightarrow> None) \<noteq> Some VALIDATION \<and>
   parseFilters JSON_parse_literals (Str '''') = Inr []"
  by (simp add: parseFilters_def parseFilter_def)

text \<open>
  Claim C9. For an array of order directives \<open>parseOrderBy\<close> answers with one entry per
  item, in order. An item \<open>field\<close> gives the field ascending; an item \<open>field:direction\<close>
  gives the field descending exactly when the direction is the string \<open>desc\<close>, ascending
  otherwise. \<open>parseOrderBy(["name:desc","age"])\<close> is name descending, then age ascending.
\<close>

theorem parseOrderBy_entries:
  "parseOrderBy (Arr items) = Some (map parseOrder items) \<and>
   (CHR '':'' \<notin> set f \<longrightarrow> parseOrder f = \<lparr>ob_field = f, ob_direction = asc\<rparr>) \<and>
   (CHR '':'' \<notin> set f \<and> CHR '':'' \<notin> set d \<longrightarrow>
      parseOrder (f @ '':'' @ d) =
        \<lparr>ob_field = f, ob_direction = (if d = ''desc'' then desc else asc)\<rparr>) \<and>
   parseOrderBy (Arr [''name:desc'', ''age'']) =
     Some [\<lparr>ob_field = ''name'', ob_direction = desc\<rparr>, \<lparr>ob_field = ''age'', ob_direction = asc\<rparr>]"
proof (intro conjI impI)
  show "parseOrderBy (Arr items) = Some (map parseOrder items)"
    by (simp add: parseOrderBy_def)
next
  assume "CHR '':'' \<notin> set f"
  then show "parseOrder f = \<lparr>ob_field = f, ob_direction = asc\<rparr>"
    by (simp add: parseOrder_def js_split_no_sep)
next
  assume "CHR '':'' \<notin> set f \<and> CHR '':'' \<notin> set d"
  then show "parseOrder (f @ '':'' @ d) =
      \<lparr>ob_field = f, ob_direction = (if d = ''desc'' then desc else asc)\<rparr>"
    by (simp add: parseOrder_def js_split_append js_split_no_sep)
next
  show "parseOrderBy (Arr [''name:desc'', ''age'']) =
     Some [\<lparr>ob_field = ''name'', ob_direction = desc\<rparr>, \<lparr>ob_field = ''age'', ob_direction = asc\<rparr>]"
    by (simp add: parseOrderBy_def parseOrder_def)
qed

theorem parseOrderBy_entries_witness:
  "CHR '':'' \<notin> set ''name'' \<and> CHR '':'' \<notin> set ''desc'' \<and>
   parseOrder ''age'' = \<lparr>ob_field = ''age'', ob_direction = asc\<rparr> \<and>
   parseOrder ''name:desc'' = \<lparr>ob_field = ''name'', ob_direction = desc\<rparr> \<and>
   parseOrder ''name:up'' = \<lparr>ob_field = ''name'', ob_direction = asc\<rparr> \<and>
   parseOrderBy (Arr [''name:desc'', ''age'']) =
     Some [\<lparr>ob_field = ''name'', ob_direction = desc\<rparr>, \<lparr>ob_field = ''age'', ob_direction = asc\<rparr>]"
proof -
  have n: "CHR '':'' \<notin> set ''name''" and d: "CHR '':'' \<notin> set ''desc''"
    and a: "CHR '':'' \<notin> set ''age''" and u: "CHR '':'' \<notin> set ''up''"
    by simp_all
  have "parseOrder ''age'' = \<lparr>ob_field = ''age'', ob_direction = asc\<rparr>"
    using parseOrderBy_entries [of "[]" "''age''" "[]"] a by blast
  moreover have "parseOrder (''name'' @ '':'' @ ''desc'') =
      \<lparr>ob_field = ''name'', ob_direction = (if ''desc'' = ''desc'' then desc else asc)\<rparr>"
    using parseOrderBy_entries [of "[]" "''name''" "''desc''"] n d by blast
  moreover have "parseOrder (''name'' @ '':'' @ ''up'') =
      \<lparr>ob_field = ''name'', ob_direction = (if ''up'' = ''desc'' then desc else asc)\<rparr>"
    using parseOrderBy_entries [of "[]" "''name''" "''up''"] n u by blast
  moreover have "parseOrderBy (Arr [''name:desc'', ''age'']) =
     Some [\<lparr>ob_field = ''name'', ob_direction = desc\<rparr>, \<lparr>ob_field = ''age'', ob_direction = asc\<rparr>]"
    using parseOrderBy_entries [of "[]" "[]" "[]"] by blast
  ultimately show ?thesis using n d by simp
qed

section \<open>Table names and ids\<close>

lemma regex_test_single:
  "regex_test [Rep cls lo hi] s = (lo \<le> length s \<and> length s \<le> hi \<and> list_all (in_class cls) s)"
proof -
  have "regex_test [Rep cls lo hi] s =
      (\<exists>k \<in> {lo..<Suc hi}. k \<le> length s \<and> list_all (in_class cls) (take k s) \<and> drop k s = [])"
    by (auto simp: list_ex_iff)
  also have "\<dots> = (lo \<le> length s \<and> length s \<le> hi \<and> list_all (in_class cls) s)"
  proof
    assume "\<exists>k \<in> {lo..<Suc hi}. k \<le> length s \<and> list_all (in_class cls) (take k s) \<and> drop k s = []"
    then obtain k where k: "lo \<le> k" "k \<le> hi" "k \<le> length s"
      "list_all (in_class cls) (take k s)" "drop k s = []"
      by auto
    from k(3,5) have "k = length s" by simp
    with k show "lo \<le> length s \<and> length s \<le> hi \<and> list_all (in_class cls) s" by simp
  next
    assume "lo \<le> length s \<and> length s \<le> hi \<and> list_all (in_class cls) s"
    then show "\<exists>k \<in> {lo..<Suc hi}. k \<le> length s \<and> list_all (in_class cls) (take k s) \<and> drop k s = []"
      by (intro bexI [of _ "length s"]) auto
  qed
  finally show ?thesis .
qed

lemma in_class_first:
  "in_class [Rng CHR ''a'' CHR ''z'', Rng CHR ''A'' CHR ''Z'', Chr CHR ''_''] c
     = (is_letter c \<or> c = CHR ''_'')"
  by (simp add: in_class_def is_letter_def)

lemma in_class_rest:
  "in_class [Rng CHR ''a'' CHR ''z'', Rng CHR ''A'' CHR ''Z'', Rng CHR ''0'' CHR ''9'', Chr CHR ''_'']
     = (\<lambda>c. is_letter c \<or> is_digit c \<or> c = CHR ''_'')"
  by (rule ext) (auto simp add: in_class_def is_letter_def is_digit_def)

lemma regex_test_TABLE_NAME_RE: "regex_test TABLE_NAME_RE s = spec_table_name s"
proof (cases s)
  case Nil
  then show ?thesis
    by (simp add: TABLE_NAME_RE_def spec_table_name_def)
next
  case (Cons c rest)
  have "regex_test TABLE_NAME_RE (c # rest) =
      (in_class [Rng CHR ''a'' CHR ''z'', Rng CHR ''A'' CHR ''Z'', Chr CHR ''_''] c \<and>
       regex_test [Rep [Rng CHR ''a'' CHR ''z'', Rng CHR ''A'' CHR ''Z'', Rng CHR ''0'' CHR ''9'',
                        Chr CHR ''_''] 0 62] rest)"
    unfolding TABLE_NAME_RE_def regex_test.simps(2) [of _ 1 1] by simp
  then show ?thesis
    unfolding Cons regex_test_single
    by (simp add: spec_table_name_def in_class_first in_class_rest)
qed

lemma regex_test_ID_RE_nonempty: "regex_test ID_RE i \<Longrightarrow> i \<noteq> []"
  unfolding ID_RE_def regex_test_single by auto

lemma validateId_nonempty: "validateId i = Inr u \<Longrightarrow> i \<noteq> []"
  using regex_test_ID_RE_nonempty [of i] by (auto simp: validateId_def split: if_splits)

text \<open>
  Claim C8. \<open>validateTable\<close> accepts a string exactly when it starts with a letter or an
  underscore followed by up to 62 letters, digits or underscores and, where an allow-list
  is configured, the string is in the list; every other string is rejected with an error
  of code \<open>VALIDATION\<close>.
\<close>

theorem validateTable_accepts_iff:
  "(validateTable svc t = Inr () \<longleftrightarrow>
      spec_table_name t \<and> (\<forall>allowed. allowedTables svc = Some allowed \<longrightarrow> t \<in> set allowed)) \<and>
   (validateTable svc t \<noteq> Inr () \<longrightarrow> (\<exists>m. validateTable svc t = Inl (DataError m VALIDATION)))"
  by (auto simp: validateTable_def regex_test_TABLE_NAME_RE split: option.splits)

theorem validateTable_accepts_iff_witness:
  "spec_table_name ''users'' \<and>
   validateTable \<lparr>adapter = (), cache = [], cacheTtlMs = 0, allowedTables = Some [''users'']\<rparr> ''users''
     = Inr () \<and>
   validateTable \<lparr>adapter = (), cache = [], cacheTtlMs = 0, allowedTables = Some [''users'']\<rparr> ''posts''
     \<noteq> Inr () \<and>
   (\<exists>m. validateTable \<lparr>adapter = (), cache = [], cacheTtlMs = 0, allowedTables = Some [''users'']\<rparr>
          ''posts'' = Inl (DataError m VALIDATION))"
proof -
  let ?svc = "\<lparr>adapter = (), cache = [], cacheTtlMs = 0, allowedTables = Some [''users'']\<rparr>"
  have a: "spec_table_name ''users''"
    by (simp add: spec_table_name_def is_letter_def is_digit_def)
  have b: "\<forall>allowed. allowedTables ?svc = Some allowed \<longrightarrow> ''users'' \<in> set allowed"
    by simp
  have c: "\<not> (\<forall>allowed. allowedTables ?svc = Some allowed \<longrightarrow> ''posts'' \<in> set allowed)"
    by simp
  have "validateTable ?svc ''users'' = Inr ()"
    using validateTable_accepts_iff [of ?svc "''users''"] a b by blast
  moreover have "validateTable ?svc ''posts'' \<noteq> Inr ()"
    using validateTable_accepts_iff [of ?svc "''posts''"] c by blast
  moreover from this have "\<exists>m. validateTable ?svc ''posts'' = Inl (DataError m VALIDATION)"
    using validateTable_accepts_iff [of ?svc "''posts''"] by blast
  ultimately show ?thesis using a by blast
qed

section \<open>The cache\<close>

lemma cacheKey_id: "i \<noteq> [] \<Longrightarrow> cacheKey t (Some i) = t @ '':'' @ i"
  by (simp add: cacheKey_def)

lemma getCached_expired:
  "map_of c key = Some e \<Longrightarrow> now > expiresAt e \<Longrightarrow> getCached now c key = (None, AList.delete key c)"
  by (simp add: getCached_def)

lemma getCached_hit:
  "getCached now c key = (Some v, c') \<Longrightarrow>
     \<exists>e. map_of c key = Some e \<and> data e = v \<and> \<not> now > expiresAt e \<and> c' = c"
  by (auto simp: getCached_def split: option.splits if_splits)

lemma getCached_absent: "map_of c key = None \<Longrightarrow> getCached now c key = (None, c)"
  by (simp add: getCached_def)

lemma findOne_expired:
  assumes "validateTable svc t = Inr ()" "validateId i = Inr ()"
    and "map_of (cache svc) (cacheKey t (Some i)) = Some e" "now > expiresAt e"
  shows "fst (DataService_findOne A now now' svc t i) =
           (case fst (ad_findOne A (adapter svc) t i) of
              Inl err \<Rightarrow> Inl (rethrow ''findOne'' err)
            | Inr r \<Rightarrow> Inr r)"
proof -
  obtain res s' where a: "ad_findOne A (adapter svc) t i = (res, s')"
    by (cases "ad_findOne A (adapter svc) t i")
  show ?thesis
    using assms a
    by (simp add: DataService_findOne_def getCached_expired Let_def
        split: sum.splits option.splits)
qed

text \<open>
  Claim C3. A lookup returns a cached value only while the clock is not past the entry's
  expiry; a lookup that finds an expired entry deletes that entry, and no other, and
  reports a miss, so that \<open>findOne\<close> then answers from the adapter.
\<close>

theorem getCached_never_past_expiry:
  "(getCached now c key = (Some v, c') \<longrightarrow>
      (\<exists>e. map_of c key = Some e \<and> data e = v \<and> \<not> now > expiresAt e \<and> c' = c)) \<and>
   (map_of c key = Some e \<and> now > expiresAt e \<longrightarrow>
      getCached now c key = (None, AList.delete key c) \<and>
      map_of (AList.delete key c) key = None \<and>
      (\<forall>k. k \<noteq> key \<longrightarrow> map_of (AList.delete key c) k = map_of c k)) \<and>
   (validateTable svc t = Inr () \<and> validateId i = Inr () \<and>
    map_of (cache svc) (cacheKey t (Some i)) = Some e \<and> now > expiresAt e \<longrightarrow>
      fst (DataService_findOne A now now' svc t i) =
        (case fst (ad_findOne A (adapter svc) t i) of
           Inl err \<Rightarrow> Inl (rethrow ''findOne'' err)
         | Inr r \<Rightarrow> Inr r))"
proof (intro conjI impI)
  assume "getCached now c key = (Some v, c')"
  then show "\<exists>e. map_of c key = Some e \<and> data e = v \<and> \<not> now > expiresAt e \<and> c' = c"
    by (rule getCached_hit)
next
  assume "map_of c key = Some e \<and> now > expiresAt e"
  then show "getCached now c key = (None, AList.delete key c)"
    by (simp add: getCached_expired)
next
  show "map_of (AList.delete key c) key = None"
    by (simp add: delete_conv')
next
  show "\<forall>k. k \<noteq> key \<longrightarrow> map_of (AList.delete key c) k = map_of c k"
    by simp
next
  assume "validateTable svc t = Inr () \<and> validateId i = Inr () \<and>
    map_of (cache svc) (cacheKey t (Some i)) = Some e \<and> now > expiresAt e"
  then show "fst (DataService_findOne A now now' svc t i) =
        (case fst (ad_findOne A (adapter svc) t i) of
           Inl err \<Rightarrow> Inl (rethrow ''findOne'' err)
         | Inr r \<Rightarrow> Inr r)"
    using findOne_expired by blast
qed

theorem getCached_never_past_expiry_witness:
  "map_of [(''users:a1'', \<lparr>data = [(''id'', JStr ''a1'')], expiresAt = 1000\<rparr>)] ''users:a1''
     = Some \<lparr>data = [(''id'', JStr ''a1'')], expiresAt = 1000\<rparr> \<and>
   (1001::int) > expiresAt \<lparr>data = [(''id'', JStr ''a1'')], expiresAt = 1000\<rparr> \<and>
   getCached 1001 [(''users:a1'', \<lparr>data = [(''id'', JStr ''a1'')], expiresAt = 1000\<rparr>)] ''users:a1''
     = (None, []) \<and>
   getCached 1000 [(''users:a1'', \<lparr>data = [(''id'', JStr ''a1'')], expiresAt = 1000\<rparr>)] ''users:a1''
     = (Some [(''id'', JStr ''a1'')],
        [(''users:a1'', \<lparr>data = [(''id'', JStr ''a1'')], expiresAt = 1000\<rparr>)])"
proof -
  let ?e = "\<lparr>data = [(''id'', JStr ''a1'')], expiresAt = 1000\<rparr>"
  let ?c = "[(''users:a1'', ?e)]"
  have m: "map_of ?c ''users:a1'' = Some ?e" by simp
  have x: "(1001::int) > expiresAt ?e" by simp
  have "getCached 1001 ?c ''users:a1'' = (None, AList.delete ''users:a1'' ?c)"
    using getCached_never_past_expiry [of 1001 ?c "''users:a1''" _ _ ?e] m x by blast
  moreover have "AList.delete ''users:a1'' ?c = []" by simp
  moreover have "getCached 1000 ?c ''users:a1'' = (Some [(''id'', JStr ''a1'')], ?c)"
    by (simp add: getCached_def)
  ultimately show ?thesis using m x by simp
qed

lemma fold_invalidate:
  "map_of (fold (\<lambda>key acc. if startsWith key p then AList.delete key acc else acc) ks acc) k =
     (if k \<in> set ks \<and> startsWith k p then None else map_of acc k)"
proof (induction ks arbitrary: acc)
  case Nil
  show ?case by simp
next
  case (Cons a ks)
  show ?case
    by (simp add: Cons.IH delete_conv')
qed

lemma map_of_invalidateTable:
  "map_of (invalidateTable t c) k = (if startsWith k (t @ '':'') then None else map_of c k)"
proof -
  have "k \<notin> set (map fst c) \<Longrightarrow> map_of c k = None"
    by (simp add: map_of_eq_None_iff)
  then show ?thesis
    unfolding invalidateTable_def fold_invalidate by auto
qed

lemma create_invalidates:
  "fst (DataService_create A svc t d) = Inr r \<Longrightarrow>
     cache (snd (DataService_create A svc t d)) = invalidateTable t (cache svc)"
  by (auto simp: DataService_create_def split: sum.splits prod.splits)

lemma createMany_invalidates:
  "fst (DataService_createMany A svc t ds) = Inr rs \<Longrightarrow>
     cache (snd (DataService_createMany A svc t ds)) = invalidateTable t (cache svc)"
  by (auto simp: DataService_createMany_def split: sum.splits prod.splits)

lemma deleteMany_invalidates:
  "fst (DataService_deleteMany A svc t fs) = Inr n \<Longrightarrow>
     cache (snd (DataService_deleteMany A svc t fs)) = invalidateTable t (cache svc)"
  by (auto simp: DataService_deleteMany_def split: sum.splits prod.splits)

lemma update_invalidates:
  "fst (DataService_update A svc t i d) = Inr r \<Longrightarrow>
     cache (snd (DataService_update A svc t i d)) = AList.delete (t @ '':'' @ i) (cache svc)"
  by (auto simp: DataService_update_def cacheKey_id dest!: validateId_nonempty
      split: sum.splits prod.splits)

lemma delete_invalidates:
  "fst (DataService_delete A svc t i) = Inr u \<Longrightarrow>
     cache (snd (DataService_delete A svc t i)) = AList.delete (t @ '':'' @ i) (cache svc)"
  by (auto simp: DataService_delete_def cacheKey_id dest!: validateId_nonempty
      split: sum.splits prod.splits)

text \<open>
  Claim C4. After a successful \<open>create\<close>, \<open>createMany\<close> or \<open>deleteMany\<close> on a table the
  cache holds no key that starts with the table name and a colon, and every other entry
  is as before; after a successful \<open>update\<close> or \<open>delete\<close> of an id the entry \<open>table:id\<close> is
  gone and every other entry is as before.
\<close>

theorem writes_invalidate_cache:
  "(fst (DataService_create A svc t d) = Inr r \<longrightarrow>
      map_of (cache (snd (DataService_create A svc t d))) k =
        (if startsWith k (t @ '':'') then None else map_of (cache svc) k)) \<and>
   (fst (DataService_createMany A svc t ds) = Inr rs \<longrightarrow>
      map_of (cache (snd (DataService_createMany A svc t ds))) k =
        (if startsWith k (t @ '':'') then None else map_of (cache svc) k)) \<and>
   (fst (DataService_deleteMany A svc t fs) = Inr n \<longrightarrow>
      map_of (cache (snd (DataService_deleteMany A svc t fs))) k =
        (if startsWith k (t @ '':'') then None else map_of (cache svc) k)) \<and>
   (fst (DataService_update A svc t i d) = Inr r' \<longrightarrow>
      map_of (cache (snd (DataService_update A svc t i d))) k =
        (if k = t @ '':'' @ i then None else map_of (cache svc) k)) \<and>
   (fst (DataService_delete A svc t i) = Inr u \<longrightarrow>
      map_of (cache (snd (DataService_delete A svc t i))) k =
        (if k = t @ '':'' @ i then None else map_of (cache svc) k))"
  by (simp add: create_invalidates createMany_invalidates deleteMany_invalidates
      update_invalidates delete_invalidates map_of_invalidateTable delete_conv')

section \<open>Validation before the adapter, and what the service throws\<close>

lemma validateTable_code: "validateTable svc t = Inl e \<Longrightarrow> code e = Some VALIDATION"
  by (auto simp: validateTable_def split: if_splits option.splits)

lemma validateId_code: "validateId i = Inl e \<Longrightarrow> code e = Some VALIDATION"
  by (auto simp: validateId_def split: if_splits)

lemma rethrow_code: "code (rethrow opname err) = Some ADAPTER"
  by (simp add: rethrow_def)

lemma invalid_table_stops:
  assumes "validateTable svc t = Inl e"
  shows "DataService_findMany A svc t opts = (Inl e, svc)"
    and "DataService_findOne A now now' svc t i = (Inl e, svc)"
    and "DataService_create A svc t d = (Inl e, svc)"
    and "DataService_createMany A svc t ds = (Inl e, svc)"
    and "DataService_update A svc t i d = (Inl e, svc)"
    and "DataService_delete A svc t i = (Inl e, svc)"
    and "DataService_deleteMany A svc t fs = (Inl e, svc)"
    and "DataService_count A svc t fo = (Inl e, svc)"
  using assms
  by (simp_all add: DataService_findMany_def DataService_findOne_def DataService_create_def
      DataService_createMany_def DataService_update_def DataService_delete_def
      DataService_deleteMany_def DataService_count_def)

lemma invalid_id_stops:
  assumes "validateTable svc t = Inr ()" "validateId i = Inl e"
  shows "DataService_findOne A now now' svc t i = (Inl e, svc)"
    and "DataService_update A svc t i d = (Inl e, svc)"
    and "DataService_delete A svc t i = (Inl e, svc)"
  using assms
  by (simp_all add: DataService_findOne_def DataService_update_def DataService_delete_def)

lemma findMany_rethrows:
  "validateTable svc t = Inr () \<Longrightarrow> fst (ad_findMany A (adapter svc) t opts) = Inl err \<Longrightarrow>
     fst (DataService_findMany A svc t opts) = Inl (rethrow ''findMany'' err)"
  by (cases "ad_findMany A (adapter svc) t opts") (simp add: DataService_findMany_def)

lemma findOne_rethrows:
  "validateTable svc t = Inr () \<Longrightarrow> validateId i = Inr () \<Longrightarrow>
   fst (getCached now (cache svc) (cacheKey t (Some i))) = None \<Longrightarrow>
   fst (ad_findOne A (adapter svc) t i) = Inl err \<Longrightarrow>
     fst (DataService_findOne A now now' svc t i) = Inl (rethrow ''findOne'' err)"
  by (cases "ad_findOne A (adapter svc) t i"; cases "getCached now (cache svc) (cacheKey t (Some i))")
    (simp add: DataService_findOne_def)

lemma create_rethrows:
  "validateTable svc t = Inr () \<Longrightarrow> fst (ad_create A (adapter svc) t d) = Inl err \<Longrightarrow>
     fst (DataService_create A svc t d) = Inl (rethrow ''create'' err)"
  by (cases "ad_create A (adapter svc) t d") (simp add: DataService_create_def)

lemma createMany_rethrows:
  "validateTable svc t = Inr () \<Longrightarrow> fst (ad_createMany A (adapter svc) t ds) = Inl err \<Longrightarrow>
     fst (DataService_createMany A svc t ds) = Inl (rethrow ''createMany'' err)"
  by (cases "ad_createMany A (adapter svc) t ds") (simp add: DataService_createMany_def)

lemma update_rethrows:
  "validateTable svc t = Inr () \<Longrightarrow> validateId i = Inr () \<Longrightarrow>
   fst (ad_update A (adapter svc) t i d) = Inl err \<Longrightarrow>
     fst (DataService_update A svc t i d) = Inl (rethrow ''update'' err)"
  by (cases "ad_update A (adapter svc) t i d") (simp add: DataService_update_def)

lemma delete_rethrows:
  "validateTable svc t = Inr () \<Longrightarrow> validateId i = Inr () \<Longrightarrow>
   fst (ad_delete A (adapter svc) t i) = Inl err \<Longrightarrow>
     fst (DataService_delete A svc t i) = Inl (rethrow ''delete'' err)"
  by (cases "ad_delete A (adapter svc) t i") (simp add: DataService_delete_def)

lemma deleteMany_rethrows:
  "validateTable svc t = Inr () \<Longrightarrow> fst (ad_deleteMany A (adapter svc) t fs) = Inl err \<Longrightarrow>
     fst (DataService_deleteMany A svc t fs) = Inl (rethrow ''deleteMany'' err)"
  by (cases "ad_deleteMany A (adapter svc) t fs") (simp add: DataService_deleteMany_def)

lemma count_rethrows:
  "validateTable svc t = Inr () \<Longrightarrow> fst (ad_count A (adapter svc) t fo) = Inl err \<Longrightarrow>
     fst (DataService_count A svc t fo) = Inl (rethrow ''count'' err)"
  by (cases "ad_count A (adapter svc) t fo") (simp add: DataService_count_def)

lemma healthCheck_swallows:
  "fst (ad_healthCheck A (adapter svc)) = Inl err \<Longrightarrow>
     fst (DataService_healthCheck A svc) = Inr \<lparr>ok = False, latencyMs = - 1\<rparr>"
  by (cases "ad_healthCheck A (adapter svc)") (simp add: DataService_healthCheck_def)

text \<open>
  Claim C5, as the code has it. In each of the eight table operations a table name, or an
  id, that fails validation gives an error of code \<open>VALIDATION\<close> with the service, its
  adapter and its cache, left as they were; a rejection by the adapter is thrown again as
  a \<open>DataError\<close> of code \<open>ADAPTER\<close> that carries the message of the adapter's error.
  \<open>healthCheck\<close> validates nothing and answers \<open>{ok: false, latencyMs: -1}\<close> when the
  adapter rejects.
\<close>

theorem validation_first_and_failures_wrapped:
  "(validateTable svc t = Inl e \<longrightarrow>
      code e = Some VALIDATION \<and>
      DataService_findMany A svc t opts = (Inl e, svc) \<and>
      DataService_findOne A now now' svc t i = (Inl e, svc) \<and>
      DataService_create A svc t d = (Inl e, svc) \<and>
      DataService_createMany A svc t ds = (Inl e, svc) \<and>
      DataService_update A svc t i d = (Inl e, svc) \<and>
      DataService_delete A svc t i = (Inl e, svc) \<and>
      DataService_deleteMany A svc t fs = (Inl e, svc) \<and>
      DataService_count A svc t fo = (Inl e, svc)) \<and>
   (validateTable svc t = Inr () \<and> validateId i = Inl e \<longrightarrow>
      code e = Some VALIDATION \<and>
      DataService_findOne A now now' svc t i = (Inl e, svc) \<and>
      DataService_update A svc t i d = (Inl e, svc) \<and>
      DataService_delete A svc t i = (Inl e, svc)) \<and>
   (validateTable svc t = Inr () \<longrightarrow>
      (fst (ad_findMany A (adapter svc) t opts) = Inl err \<longrightarrow>
         fst (DataService_findMany A svc t opts) = Inl (rethrow ''findMany'' err)) \<and>
      (fst (ad_create A (adapter svc) t d) = Inl err \<longrightarrow>
         fst (DataService_create A svc t d) = Inl (rethrow ''create'' err)) \<and>
      (fst (ad_createMany A (adapter svc) t ds) = Inl err \<longrightarrow>
         fst (DataService_createMany A svc t ds) = Inl (rethrow ''createMany'' err)) \<and>
      (fst (ad_deleteMany A (adapter svc) t fs) = Inl err \<longrightarrow>
         fst (DataService_deleteMany A svc t fs) = Inl (rethrow ''deleteMany'' err)) \<and>
      (fst (ad_count A (adapter svc) t fo) = Inl err \<longrightarrow>
         fst (DataService_count A svc t fo) = Inl (rethrow ''count'' err))) \<and>
   (validateTable svc t = Inr () \<and> validateId i = Inr () \<longrightarrow>
      (fst (getCached now (cache svc) (cacheKey t (Some i))) = None \<and>
       fst (ad_findOne A (adapter svc) t i) = Inl err \<longrightarrow>
         fst (DataService_findOne A now now' svc t i) = Inl (rethrow ''findOne'' err)) \<and>
      (fst (ad_update A (adapter svc) t i d) = Inl err \<longrightarrow>
         fst (DataService_update A svc t i d) = Inl (rethrow ''update'' err)) \<and>
      (fst (ad_delete A (adapter svc) t i) = Inl err \<longrightarrow>
         fst (DataService_delete A svc t i) = Inl (rethrow ''delete'' err))) \<and>
   (fst (ad_healthCheck A (adapter svc)) = Inl err \<longrightarrow>
      fst (DataService_healthCheck A svc) = Inr \<lparr>ok = False, latencyMs = - 1\<rparr>) \<and>
   rethrow opname err =
     DataError (if instanceof_Error err then message err else opname @ '' failed'') ADAPTER"
proof (intro conjI impI)
  show "rethrow opname err =
     DataError (if instanceof_Error err then message err else opname @ '' failed'') ADAPTER"
    by (simp add: rethrow_def)
qed (auto simp add: invalid_table_stops invalid_id_stops
    findMany_rethrows findOne_rethrows create_rethrows createMany_rethrows update_rethrows
    delete_rethrows deleteMany_rethrows count_rethrows healthCheck_swallows
    dest: validateTable_code validateId_code)

section \<open>Deleting a record\<close>

lemma validateTable_same_list:
  "allowedTables svc' = allowedTables svc \<Longrightarrow> validateTable svc' t = validateTable svc t"
  by (simp add: validateTable_def)

lemma getTable_fst:
  "fst (getTable st t) = (case map_of (tables st) t of None \<Rightarrow> [] | Some rs \<Rightarrow> rs)"
  by (simp add: getTable_def split: option.splits)

lemma getTable_snd_lookup:
  "map_of (tables (snd (getTable st t))) t = Some (fst (getTable st t))"
  by (simp add: getTable_def update_conv' split: option.splits)

lemma getTable_snd_other:
  "t' \<noteq> t \<Longrightarrow> map_of (tables (snd (getTable st t))) t' = map_of (tables st) t'"
  by (simp add: getTable_def update_conv' split: option.splits)

lemma getTable_snd_fields:
  "tick (snd (getTable st t)) = tick st" "counter (snd (getTable st t)) = counter st"
  by (simp_all add: getTable_def split: option.splits)

lemma getTable_present:
  "map_of (tables st) t = Some rs \<Longrightarrow> getTable st t = (rs, st)"
  by (simp add: getTable_def)

lemma findIndex_None_iff: "findIndex P xs = None \<longleftrightarrow> (\<forall>x \<in> set xs. \<not> P x)"
  by (induction xs) auto

lemma findIndex_Some_remove:
  "distinct (map f xs) \<Longrightarrow> findIndex (\<lambda>x. f x = v) xs = Some n \<Longrightarrow>
     take n xs @ drop (Suc n) xs = filter (\<lambda>x. f x \<noteq> v) xs"
proof (induction xs arbitrary: n)
  case Nil
  then show ?case by simp
next
  case (Cons a xs)
  show ?case
  proof (cases "f a = v")
    case True
    with Cons.prems have n: "n = 0" and "v \<notin> f ` set xs" by auto
    then have "filter (\<lambda>x. f x \<noteq> v) xs = xs"
      by (auto simp: filter_id_conv)
    with True n show ?thesis by simp
  next
    case False
    with Cons.prems obtain m where m: "findIndex (\<lambda>x. f x = v) xs = Some m" "n = Suc m"
      by auto
    with Cons False show ?thesis by simp
  qed
qed

lemma find_filter_None: "find P (filter (\<lambda>x. \<not> P x) xs) = None"
  by (induction xs) auto

lemma InMemoryAdapter_delete_absent:
  assumes "\<forall>r \<in> set (fst (getTable st t)). get r ''id'' \<noteq> JStr i"
  shows "InMemoryAdapter_delete st t i =
           (Inl (DataError (''Not found: '' @ i) NOT_FOUND), snd (getTable st t))"
proof -
  have "findIndex (\<lambda>r. get r ''id'' = JStr i) (fst (getTable st t)) = None"
    using assms by (simp add: findIndex_None_iff)
  then show ?thesis
    by (simp add: InMemoryAdapter_delete_def split_beta)
qed

lemma InMemoryAdapter_delete_present:
  assumes "\<exists>r \<in> set (fst (getTable st t)). get r ''id'' = JStr i"
    and "distinct (map (\<lambda>r. get r ''id'') (fst (getTable st t)))"
  shows "\<exists>st'. InMemoryAdapter_delete st t i = (Inr (), st') \<and>
           getTable st' t = (filter (\<lambda>r. get r ''id'' \<noteq> JStr i) (fst (getTable st t)), st')"
proof -
  let ?rs = "fst (getTable st t)"
  let ?st1 = "snd (getTable st t)"
  obtain n where n: "findIndex (\<lambda>r. get r ''id'' = JStr i) ?rs = Some n"
    using assms(1) findIndex_None_iff [of "\<lambda>r. get r ''id'' = JStr i" ?rs] by auto
  have rm: "take n ?rs @ drop (Suc n) ?rs = filter (\<lambda>r. get r ''id'' \<noteq> JStr i) ?rs"
    using findIndex_Some_remove [OF assms(2) n] .
  let ?st' = "?st1\<lparr>tables := AList.update t (filter (\<lambda>r. get r ''id'' \<noteq> JStr i) ?rs) (tables ?st1)\<rparr>"
  have "InMemoryAdapter_delete st t i = (Inr (), ?st')"
    using n rm by (simp add: InMemoryAdapter_delete_def split_beta)
  moreover have "getTable ?st' t = (filter (\<lambda>r. get r ''id'' \<noteq> JStr i) ?rs, ?st')"
    by (rule getTable_present) (simp add: update_conv')
  ultimately show ?thesis by blast
qed

lemma InMemoryAdapter_findOne_absent:
  assumes "getTable st t = (rs, st)" "\<forall>r \<in> set rs. get r ''id'' \<noteq> JStr i"
  shows "InMemoryAdapter_findOne st t i = (None, st)"
proof -
  have "find (\<lambda>r. get r ''id'' = JStr i) rs = None"
    using assms(2) by (simp add: find_None_iff)
  then show ?thesis
    using assms(1) by (simp add: InMemoryAdapter_findOne_def)
qed

text \<open>
  Claim C2, as the code has it, for the service over the in-memory adapter. For a valid
  table name and a valid id that no record of the table carries, the adapter's \<open>delete\<close>
  fails with code \<open>NOT_FOUND\<close> and \<open>DataService.delete\<close> fails with a \<open>DataError\<close> of code
  \<open>ADAPTER\<close> and the message \<open>Not found: <id>\<close>, the cache and the table unchanged. For an
  id that a record carries, ids in the table being distinct, \<open>delete\<close> succeeds, the table
  is left without that record, and a following \<open>findOne\<close> of the id answers absent.
\<close>

theorem delete_absent_and_present:
  assumes "validateTable svc t = Inr ()" and "validateId i = Inr ()"
  shows
    "((\<forall>r \<in> set (fst (getTable (adapter svc) t)). get r ''id'' \<noteq> JStr i) \<longrightarrow>
        fst (InMemoryAdapter_delete (adapter svc) t i) =
          Inl (DataError (''Not found: '' @ i) NOT_FOUND) \<and>
        fst (DataService_delete (InMemoryAdapter rt) svc t i) =
          Inl (DataError (''Not found: '' @ i) ADAPTER) \<and>
        cache (snd (DataService_delete (InMemoryAdapter rt) svc t i)) = cache svc \<and>
        fst (getTable (adapter (snd (DataService_delete (InMemoryAdapter rt) svc t i))) t) =
          fst (getTable (adapter svc) t)) \<and>
     ((\<exists>r \<in> set (fst (getTable (adapter svc) t)). get r ''id'' = JStr i) \<and>
      distinct (map (\<lambda>r. get r ''id'') (fst (getTable (adapter svc) t))) \<longrightarrow>
        fst (DataService_delete (InMemoryAdapter rt) svc t i) = Inr () \<and>
        fst (getTable (adapter (snd (DataService_delete (InMemoryAdapter rt) svc t i))) t) =
          filter (\<lambda>r. get r ''id'' \<noteq> JStr i) (fst (getTable (adapter svc) t)) \<and>
        fst (DataService_findOne (InMemoryAdapter rt) now now'
               (snd (DataService_delete (InMemoryAdapter rt) svc t i)) t i) = Inr None)"
proof (intro conjI impI)
  assume absent: "\<forall>r \<in> set (fst (getTable (adapter svc) t)). get r ''id'' \<noteq> JStr i"
  note d = InMemoryAdapter_delete_absent [OF absent]
  show "fst (InMemoryAdapter_delete (adapter svc) t i) =
      Inl (DataError (''Not found: '' @ i) NOT_FOUND)"
    by (simp add: d)
  have s: "DataService_delete (InMemoryAdapter rt) svc t i =
      (Inl (DataError (''Not found: '' @ i) ADAPTER), svc\<lparr>adapter := snd (getTable (adapter svc) t)\<rparr>)"
    using assms by (simp add: DataService_delete_def InMemoryAdapter_def d rethrow_def)
  show "fst (DataService_delete (InMemoryAdapter rt) svc t i) =
      Inl (DataError (''Not found: '' @ i) ADAPTER)"
    by (simp add: s)
  show "cache (snd (DataService_delete (InMemoryAdapter rt) svc t i)) = cache svc"
    by (simp add: s)
  show "fst (getTable (adapter (snd (DataService_delete (InMemoryAdapter rt) svc t i))) t) =
      fst (getTable (adapter svc) t)"
    by (simp add: s getTable_fst [of "snd (getTable (adapter svc) t)"] getTable_snd_lookup)
next
  assume present: "(\<exists>r \<in> set (fst (getTable (adapter svc) t)). get r ''id'' = JStr i) \<and>
      distinct (map (\<lambda>r. get r ''id'') (fst (getTable (adapter svc) t)))"
  let ?kept = "filter (\<lambda>r. get r ''id'' \<noteq> JStr i) (fst (getTable (adapter svc) t))"
  obtain st' where d: "InMemoryAdapter_delete (adapter svc) t i = (Inr (), st')"
    and g: "getTable st' t = (?kept, st')"
    using InMemoryAdapter_delete_present [of "adapter svc" t i] present by blast
  let ?svc' = "svc\<lparr>adapter := st', cache := AList.delete (cacheKey t (Some i)) (cache svc)\<rparr>"
  have s: "DataService_delete (InMemoryAdapter rt) svc t i = (Inr (), ?svc')"
    using assms by (simp add: DataService_delete_def InMemoryAdapter_def d)
  show "fst (DataService_delete (InMemoryAdapter rt) svc t i) = Inr ()"
    by (simp add: s)
  show "fst (getTable (adapter (snd (DataService_delete (InMemoryAdapter rt) svc t i))) t) = ?kept"
    by (simp add: s g)
  have v: "validateTable ?svc' t = Inr ()"
    using assms(1) validateTable_same_list [of ?svc' svc t] by simp
  have miss: "getCached now (cache ?svc') (cacheKey t (Some i)) = (None, cache ?svc')"
    by (rule getCached_absent) (simp add: delete_conv')
  have f: "InMemoryAdapter_findOne st' t i = (None, st')"
    by (rule InMemoryAdapter_findOne_absent [OF g]) simp
  have "fst (DataService_findOne (InMemoryAdapter rt) now now' ?svc' t i) = Inr None"
    using v assms(2) miss f
    by (simp add: DataService_findOne_def InMemoryAdapter_def Let_def)
  then show "fst (DataService_findOne (InMemoryAdapter rt) now now'
               (snd (DataService_delete (InMemoryAdapter rt) svc t i)) t i) = Inr None"
    by (simp add: s)
qed

section \<open>Pages and created records\<close>

lemma length_js_slice:
  assumes "0 \<le> a" "0 \<le> l"
  shows "int (length (js_slice xs a (a + l))) =
           min (a + l) (int (length xs)) - min a (int (length xs))"
proof -
  define len where "len = int (length xs)"
  define k where "k = min a len"
  define final where "final = min (a + l) len"
  have bounds: "0 \<le> k" "k \<le> final" "final \<le> len"
    using assms by (simp_all add: k_def final_def len_def)
  have "js_slice xs a (a + l) = take (nat (final - k)) (drop (nat k) xs)"
    using assms by (simp add: js_slice_def Let_def k_def final_def len_def)
  then have "length (js_slice xs a (a + l)) = min (length xs - nat k) (nat (final - k))"
    by simp
  also have "\<dots> = nat (final - k)"
    using bounds by (simp add: len_def min_def) linarith
  finally have "int (length (js_slice xs a (a + l))) = final - k"
    using bounds by simp
  then show ?thesis
    by (simp add: final_def k_def len_def)
qed

lemma length_insert_by: "length (insert_by cmp x xs) = Suc (length xs)"
  by (induction xs) auto

lemma length_js_sort: "length (js_sort cmp xs) = length xs"
  unfolding js_sort_def by (induction xs) (auto simp: length_insert_by)

lemma InMemoryAdapter_findMany_result:
  assumes "fst (InMemoryAdapter_findMany rt st t opts) = Inr p"
  shows "\<exists>sorted. pr_data p = js_slice sorted (pr_offset p) (pr_offset p + pr_limit p) \<and>
           pr_count p = int (length sorted) \<and>
           hasMore p = (pr_offset p + pr_limit p < pr_count p)"
  using assms
  by (auto simp: InMemoryAdapter_findMany_def Let_def split_beta split: sum.splits)

lemma hasMore_nonneg:
  assumes "0 \<le> off" "0 \<le> lim"
  shows "(off + lim < int (length xs)) =
           (off + int (length (js_slice xs off (off + lim))) < int (length xs))"
  unfolding length_js_slice [OF assms] using assms by (auto simp: min_def)

text \<open>
  Claim C1, as the code has it. The Supabase adapter sets \<open>hasMore\<close> to
  \<open>offset + rows.length < count\<close>. The in-memory adapter sets it to
  \<open>offset + limit < total\<close>, which for an offset and a limit that are not negative is true
  exactly when the offset plus the number of records in the page is below the total. The
  service hands the adapter's result on unchanged.
\<close>

theorem hasMore_iff_more_records:
  "(fst (InMemoryAdapter_findMany rt st t opts) = Inr p \<and> 0 \<le> pr_offset p \<and> 0 \<le> pr_limit p \<longrightarrow>
      (hasMore p \<longleftrightarrow> pr_offset p + int (length (pr_data p)) < pr_count p)) \<and>
   (SupabaseAdapter_findMany client t opts = Inr q \<longrightarrow>
      (hasMore q \<longleftrightarrow> pr_offset q + int (length (pr_data q)) < pr_count q)) \<and>
   (fst (DataService_findMany A svc t opts) = Inr r \<longrightarrow>
      fst (ad_findMany A (adapter svc) t opts) = Inr r) \<and>
   (fst (InMemoryAdapter_findMany rt st t opts) = Inr p \<longrightarrow>
      (hasMore p \<longleftrightarrow> pr_offset p + pr_limit p < pr_count p))"
proof (intro conjI impI)
  assume "fst (InMemoryAdapter_findMany rt st t opts) = Inr p"
  then show "hasMore p \<longleftrightarrow> pr_offset p + pr_limit p < pr_count p"
    using InMemoryAdapter_findMany_result by blast
next
  assume a: "fst (InMemoryAdapter_findMany rt st t opts) = Inr p \<and> 0 \<le> pr_offset p \<and> 0 \<le> pr_limit p"
  then obtain sorted where s: "pr_data p = js_slice sorted (pr_offset p) (pr_offset p + pr_limit p)"
    "pr_count p = int (length sorted)" "hasMore p = (pr_offset p + pr_limit p < pr_count p)"
    using InMemoryAdapter_findMany_result by blast
  show "hasMore p \<longleftrightarrow> pr_offset p + int (length (pr_data p)) < pr_count p"
    unfolding s using hasMore_nonneg [of "pr_offset p" "pr_limit p" sorted] a by simp
next
  assume "SupabaseAdapter_findMany client t opts = Inr q"
  then show "hasMore q \<longleftrightarrow> pr_offset q + int (length (pr_data q)) < pr_count q"
    by (auto simp: SupabaseAdapter_findMany_def Let_def split: option.splits sum.splits)
next
  assume "fst (DataService_findMany A svc t opts) = Inr r"
  then show "fst (ad_findMany A (adapter svc) t opts) = Inr r"
    by (cases "ad_findMany A (adapter svc) t opts")
      (auto simp: DataService_findMany_def split: sum.splits)
qed

lemma uuid_eq:
  "uuid rt st =
     (uuid_value rt (tick st) (counter st),
      st\<lparr>counter := counter st + counters_per_create rt,
         tick := tick st + (ticks_per_create rt - 1)\<rparr>)"
  by (cases "crypto_randomUUID rt")
    (simp_all add: uuid_def uuid_value_def counters_per_create_def ticks_per_create_def)

lemma getTable_tables_irrelevant:
  "tables st1 = tables st \<Longrightarrow> fst (getTable st1 t) = fst (getTable st t)"
  by (simp add: getTable_fst)

lemma InMemoryAdapter_create_eq:
  "InMemoryAdapter_create rt st t d =
     (created_record rt (tick st) (counter st) d,
      \<lparr>tables = AList.update t (fst (getTable st t) @ [created_record rt (tick st) (counter st) d])
                 (tables st),
       counter = counter st + counters_per_create rt,
       tick = tick st + ticks_per_create rt\<rparr>)"
proof -
  have t: "Suc (tick st + (ticks_per_create rt - Suc 0)) = tick st + ticks_per_create rt"
    "Suc (ticks_per_create rt - Suc 0) = ticks_per_create rt"
    by (simp_all add: ticks_per_create_def split: option.splits)
  show ?thesis
    by (cases st; cases "map_of (tables st) t")
      (simp_all add: InMemoryAdapter_create_def uuid_eq created_record_def getTable_def t Let_def)
qed

lemma InMemoryAdapter_createMany_eq:
  "InMemoryAdapter_createMany rt st t items =
     (created_list rt (tick st) (counter st) items,
      if items = [] then st
      else \<lparr>tables = AList.update t
                       (fst (getTable st t) @ created_list rt (tick st) (counter st) items)
                       (tables st),
            counter = counter st + length items * counters_per_create rt,
            tick = tick st + length items * ticks_per_create rt\<rparr>)"
proof (induction items arbitrary: st)
  case Nil
  show ?case by simp
next
  case (Cons d ds)
  let ?r = "created_record rt (tick st) (counter st) d"
  let ?st1 = "\<lparr>tables = AList.update t (fst (getTable st t) @ [?r]) (tables st),
       counter = counter st + counters_per_create rt,
       tick = tick st + ticks_per_create rt\<rparr>"
  have g: "fst (getTable ?st1 t) = fst (getTable st t) @ [?r]"
    by (simp add: getTable_fst update_conv')
  have c: "InMemoryAdapter_create rt st t d = (?r, ?st1)"
    by (rule InMemoryAdapter_create_eq)
  have ih: "InMemoryAdapter_createMany rt ?st1 t ds =
     (created_list rt (tick ?st1) (counter ?st1) ds,
      if ds = [] then ?st1
      else \<lparr>tables = AList.update t
                       (fst (getTable ?st1 t) @ created_list rt (tick ?st1) (counter ?st1) ds)
                       (tables ?st1),
            counter = counter ?st1 + length ds * counters_per_create rt,
            tick = tick ?st1 + length ds * ticks_per_create rt\<rparr>)"
    by (rule Cons.IH)
  show ?case
  proof (cases "ds = []")
    case True
    then show ?thesis by (simp add: c)
  next
    case False
    then show ?thesis
      by (simp add: c ih g add.assoc)
  qed
qed

lemma created_list_length: "length (created_list rt k c items) = length items"
  by (induction items arbitrary: k c) auto

lemma created_list_nth:
  "j < length items \<Longrightarrow>
     created_list rt k c items ! j =
       created_record rt (k + j * ticks_per_create rt) (c + j * counters_per_create rt) (items ! j)"
proof (induction items arbitrary: k c j)
  case Nil
  then show ?case by simp
next
  case (Cons d ds)
  show ?case
  proof (cases j)
    case 0
    then show ?thesis by simp
  next
    case (Suc m)
    with Cons.prems have "m < length ds" by simp
    from Cons.IH [OF this] Suc show ?thesis
      by (simp add: add.assoc add.commute)
  qed
qed

lemma created_record_fields:
  "get (created_record rt k c d) ''id'' = JStr (uuid_value rt (k + 1) c)"
  "get (created_record rt k c d) ''created_at'' = JStr (Date_toISOString rt k)"
  "get (created_record rt k c d) ''updated_at'' = JStr (Date_toISOString rt k)"
  "f \<notin> {''id'', ''created_at'', ''updated_at''} \<Longrightarrow> get (created_record rt k c d) f = get d f"
  by (simp_all add: created_record_def get_def update_conv')

lemma show_nat_unfold:
  "n < 10 \<Longrightarrow> show_nat n = [char_of (48 + n)]"
  "\<not> n < 10 \<Longrightarrow> show_nat n = show_nat (n div 10) @ [char_of (48 + n mod 10)]"
  by (subst show_nat.simps, simp)+

lemma digit_char:
  assumes "k < 10"
  shows "is_digit (char_of (48 + k))" and "digit_val (char_of (48 + k)) = k"
proof -
  have "of_char (char_of (48 + k) :: char) = (48 + k) mod 256"
    by (simp only: of_char_of)
  also have "\<dots> = 48 + k"
    using assms by simp
  finally have v: "of_char (char_of (48 + k) :: char) = 48 + k" .
  show "is_digit (char_of (48 + k))"
    unfolding is_digit_def v using assms by simp
  show "digit_val (char_of (48 + k)) = k"
    unfolding digit_val_def v by simp
qed

lemma show_nat_digits: "list_all is_digit (show_nat n)"
proof (induction n rule: show_nat.induct)
  case (1 n)
  show ?case
  proof (cases "n < 10")
    case True
    then show ?thesis
      by (simp add: show_nat_unfold(1) digit_char(1))
  next
    case False
    have d: "is_digit (char_of (48 + n mod 10))"
      by (rule digit_char(1)) simp
    have "list_all is_digit (show_nat (n div 10))"
      using 1 False by blast
    with d show ?thesis
      by (simp add: show_nat_unfold(2) [OF False])
  qed
qed

lemma show_nat_value: "foldl (\<lambda>a c. 10 * a + digit_val c) 0 (show_nat n) = n"
proof (induction n rule: show_nat.induct)
  case (1 n)
  show ?case
  proof (cases "n < 10")
    case True
    then show ?thesis
      by (simp add: show_nat_unfold(1) digit_char(2))
  next
    case False
    have d: "digit_val (char_of (48 + n mod 10)) = n mod 10"
      by (rule digit_char(2)) simp
    have ih: "foldl (\<lambda>a c. 10 * a + digit_val c) 0 (show_nat (n div 10)) = n div 10"
      using 1 False by blast
    show ?thesis
      by (simp add: show_nat_unfold(2) [OF False] ih d)
  qed
qed

lemma show_nat_inj:
  assumes "show_nat n = show_nat m"
  shows "n = m"
proof -
  have "n = foldl (\<lambda>a c. 10 * a + digit_val c) 0 (show_nat n)"
    by (simp only: show_nat_value)
  also have "\<dots> = foldl (\<lambda>a c. 10 * a + digit_val c) 0 (show_nat m)"
    by (simp only: assms)
  also have "\<dots> = m"
    by (rule show_nat_value)
  finally show ?thesis .
qed

lemma digits_then_dash:
  "list_all is_digit xs \<Longrightarrow> list_all is_digit ys \<Longrightarrow> xs @ CHR ''-'' # r = ys @ CHR ''-'' # r'
     \<Longrightarrow> xs = ys \<and> r = r'"
proof (induction xs arbitrary: ys)
  case Nil
  then show ?case by (cases ys) (auto simp: is_digit_def)
next
  case (Cons x xs)
  then show ?case by (cases ys) (auto simp: is_digit_def)
qed

lemma mem_id_counter:
  assumes "0 \<le> a" "0 \<le> a'"
    and "''mem-'' @ show_int a @ ''-'' @ show_nat c @ ''-'' @ r =
         ''mem-'' @ show_int a' @ ''-'' @ show_nat c' @ ''-'' @ r'"
  shows "c = c'"
proof -
  have a: "show_int a = show_nat (nat a)" "show_int a' = show_nat (nat a')"
    using assms(1,2) by (simp_all add: show_int_def)
  from assms(3) have "show_nat (nat a) @ CHR ''-'' # (show_nat c @ CHR ''-'' # r) =
      show_nat (nat a') @ CHR ''-'' # (show_nat c' @ CHR ''-'' # r')"
    unfolding a by simp
  then have "show_nat c @ CHR ''-'' # r = show_nat c' @ CHR ''-'' # r'"
    using digits_then_dash [OF show_nat_digits show_nat_digits] by blast
  then have "show_nat c = show_nat c'"
    using digits_then_dash [OF show_nat_digits show_nat_digits] by blast
  then show ?thesis by (rule show_nat_inj)
qed

lemma created_record_map_of:
  "f \<notin> {''id'', ''created_at'', ''updated_at''} \<Longrightarrow> map_of (created_record rt k c d) f = map_of d f"
  by (simp add: created_record_def update_conv')

lemma created_list_id_crypto:
  assumes "crypto_randomUUID rt = Some g" "j < length items"
  shows "get (created_list rt k c items ! j) ''id'' = JStr (g (k + j * 2 + 1))"
  using assms
  by (simp add: created_list_nth created_record_fields uuid_value_def ticks_per_create_def)

lemma created_list_id_fallback:
  assumes "crypto_randomUUID rt = None" "j < length items"
  shows "get (created_list rt k c items ! j) ''id'' =
           JStr (''mem-'' @ show_int (Date_now rt (k + j * 3 + 1)) @ ''-'' @ show_nat (c + j + 1)
                 @ ''-'' @ Math_random36 rt (k + j * 3 + 2))"
  using assms
  by (simp add: created_list_nth created_record_fields uuid_value_def ticks_per_create_def
      counters_per_create_def add.assoc)

lemma distinct_ids_by_index:
  assumes "\<And>a b. a < length xs \<Longrightarrow> b < length xs \<Longrightarrow> a \<noteq> b \<Longrightarrow> f (xs ! a) \<noteq> f (xs ! b)"
  shows "distinct (map f xs)"
  unfolding distinct_conv_nth using assms by simp

lemma crypto_ids_distinct:
  assumes "crypto_randomUUID rt = Some g" "inj g"
  shows "distinct (map (\<lambda>r. get r ''id'') (created_list rt k c items))"
proof (rule distinct_ids_by_index)
  fix a b
  assume "a < length (created_list rt k c items)" "b < length (created_list rt k c items)" "a \<noteq> b"
  then have a: "a < length items" and b: "b < length items" and ne: "k + a * 2 + 1 \<noteq> k + b * 2 + 1"
    by (simp_all add: created_list_length)
  have "g (k + a * 2 + 1) \<noteq> g (k + b * 2 + 1)"
    using ne assms(2) by (auto dest: injD)
  then show "get (created_list rt k c items ! a) ''id'' \<noteq> get (created_list rt k c items ! b) ''id''"
    by (simp add: created_list_id_crypto [OF assms(1) a] created_list_id_crypto [OF assms(1) b])
qed

lemma crypto_ids_new:
  assumes "crypto_randomUUID rt = Some g" "inj g"
    and "\<forall>r \<in> set old. \<exists>n < k. get r ''id'' = JStr (g n)"
    and "r \<in> set (created_list rt k c items)"
  shows "get r ''id'' \<notin> (\<lambda>r. get r ''id'') ` set old"
proof
  assume "get r ''id'' \<in> (\<lambda>r. get r ''id'') ` set old"
  then obtain r' where r': "r' \<in> set old" "get r ''id'' = get r' ''id''"
    by auto
  then obtain n where n: "n < k" "get r' ''id'' = JStr (g n)"
    using assms(3) by blast
  obtain j where j: "j < length items" "r = created_list rt k c items ! j"
    using assms(4) by (auto simp: in_set_conv_nth created_list_length)
  have "get r ''id'' = JStr (g (k + j * 2 + 1))"
    unfolding j(2) by (rule created_list_id_crypto [OF assms(1) j(1)])
  with r'(2) n(2) have "g (k + j * 2 + 1) = g n" by simp
  then have "k + j * 2 + 1 = n" using assms(2) by (auto dest: injD)
  with n(1) show False by simp
qed

lemma fallback_ids_distinct:
  assumes "crypto_randomUUID rt = None" "\<forall>n. 0 \<le> Date_now rt n"
  shows "distinct (map (\<lambda>r. get r ''id'') (created_list rt k c items))"
proof (rule distinct_ids_by_index)
  fix a b
  assume "a < length (created_list rt k c items)" "b < length (created_list rt k c items)" "a \<noteq> b"
  then have a: "a < length items" and b: "b < length items" and ne: "c + a + 1 \<noteq> c + b + 1"
    by (simp_all add: created_list_length)
  show "get (created_list rt k c items ! a) ''id'' \<noteq> get (created_list rt k c items ! b) ''id''"
  proof
    assume "get (created_list rt k c items ! a) ''id'' = get (created_list rt k c items ! b) ''id''"
    then have "''mem-'' @ show_int (Date_now rt (k + a * 3 + 1)) @ ''-'' @ show_nat (c + a + 1)
                 @ ''-'' @ Math_random36 rt (k + a * 3 + 2) =
               ''mem-'' @ show_int (Date_now rt (k + b * 3 + 1)) @ ''-'' @ show_nat (c + b + 1)
                 @ ''-'' @ Math_random36 rt (k + b * 3 + 2)"
      unfolding created_list_id_fallback [OF assms(1) a] created_list_id_fallback [OF assms(1) b]
      by (simp only: jsval.inject)
    then have "c + a + 1 = c + b + 1"
      using mem_id_counter assms(2) by blast
    with ne show False by simp
  qed
qed

lemma fallback_ids_new:
  assumes "crypto_randomUUID rt = None" "\<forall>n. 0 \<le> Date_now rt n"
    and "\<forall>r \<in> set old. \<exists>a n x. 0 \<le> a \<and> n \<le> c \<and>
           get r ''id'' = JStr (''mem-'' @ show_int a @ ''-'' @ show_nat n @ ''-'' @ x)"
    and "r \<in> set (created_list rt k c items)"
  shows "get r ''id'' \<notin> (\<lambda>r. get r ''id'') ` set old"
proof
  assume "get r ''id'' \<in> (\<lambda>r. get r ''id'') ` set old"
  then obtain r' where r': "r' \<in> set old" "get r ''id'' = get r' ''id''"
    by auto
  then obtain a n x where n: "0 \<le> a" "n \<le> c"
    "get r' ''id'' = JStr (''mem-'' @ show_int a @ ''-'' @ show_nat n @ ''-'' @ x)"
    using assms(3) by blast
  obtain j where j: "j < length items" "r = created_list rt k c items ! j"
    using assms(4) by (auto simp: in_set_conv_nth created_list_length)
  have "get r ''id'' =
      JStr (''mem-'' @ show_int (Date_now rt (k + j * 3 + 1)) @ ''-'' @ show_nat (c + j + 1)
            @ ''-'' @ Math_random36 rt (k + j * 3 + 2))"
    unfolding j(2) by (rule created_list_id_fallback [OF assms(1) j(1)])
  with r'(2) n(3) have
    "''mem-'' @ show_int (Date_now rt (k + j * 3 + 1)) @ ''-'' @ show_nat (c + j + 1)
       @ ''-'' @ Math_random36 rt (k + j * 3 + 2) =
     ''mem-'' @ show_int a @ ''-'' @ show_nat n @ ''-'' @ x"
    by (simp only: jsval.inject)
  then have "c + j + 1 = n"
    using mem_id_counter assms(2) n(1) by blast
  with n(2) show False by simp
qed

text \<open>
  Claim C10. \<open>createMany\<close> of the in-memory adapter returns one record per item, in the
  order of the items. The record of item \<open>j\<close> is the item with \<open>id\<close>, \<open>created_at\<close> and
  \<open>updated_at\<close> set over it: the id is the value of that call's own \<open>uuid()\<close>, both
  timestamps are that call's clock reading, and every other field is the item's. The
  records are appended, in order, to the table, and no other table changes. The ids are
  fresh: where \<open>crypto.randomUUID\<close> never repeats a value, and, without it, where the clock
  is not negative, the new ids are pairwise distinct, and they differ from the ids already
  in the table when those were made by earlier calls.
\<close>

theorem createMany_one_record_per_item:
  assumes "InMemoryAdapter_createMany rt st t items = (recs, st')"
  shows "length recs = length items \<and>
    (\<forall>j < length items.
       recs ! j = created_record rt (tick st + j * ticks_per_create rt)
                    (counter st + j * counters_per_create rt) (items ! j) \<and>
       get (recs ! j) ''id'' =
         JStr (uuid_value rt (tick st + j * ticks_per_create rt + 1)
                 (counter st + j * counters_per_create rt)) \<and>
       get (recs ! j) ''created_at'' = JStr (Date_toISOString rt (tick st + j * ticks_per_create rt)) \<and>
       get (recs ! j) ''updated_at'' = JStr (Date_toISOString rt (tick st + j * ticks_per_create rt)) \<and>
       (\<forall>f. f \<notin> {''id'', ''created_at'', ''updated_at''} \<longrightarrow>
            map_of (recs ! j) f = map_of (items ! j) f)) \<and>
    (items \<noteq> [] \<longrightarrow> map_of (tables st') t = Some (fst (getTable st t) @ recs)) \<and>
    (\<forall>t'. t' \<noteq> t \<longrightarrow> map_of (tables st') t' = map_of (tables st) t') \<and>
    (\<forall>g. crypto_randomUUID rt = Some g \<and> inj g \<longrightarrow>
       distinct (map (\<lambda>r. get r ''id'') recs) \<and>
       ((\<forall>r \<in> set (fst (getTable st t)). \<exists>n < tick st. get r ''id'' = JStr (g n)) \<longrightarrow>
          (\<forall>r \<in> set recs. get r ''id'' \<notin> (\<lambda>r. get r ''id'') ` set (fst (getTable st t))))) \<and>
    (crypto_randomUUID rt = None \<and> (\<forall>n. 0 \<le> Date_now rt n) \<longrightarrow>
       distinct (map (\<lambda>r. get r ''id'') recs) \<and>
       ((\<forall>r \<in> set (fst (getTable st t)). \<exists>a n x. 0 \<le> a \<and> n \<le> counter st \<and>
            get r ''id'' = JStr (''mem-'' @ show_int a @ ''-'' @ show_nat n @ ''-'' @ x)) \<longrightarrow>
          (\<forall>r \<in> set recs. get r ''id'' \<notin> (\<lambda>r. get r ''id'') ` set (fst (getTable st t)))))"
proof -
  have recs: "recs = created_list rt (tick st) (counter st) items"
    using assms by (simp add: InMemoryAdapter_createMany_eq)
  have st': "items \<noteq> [] \<Longrightarrow> tables st' = AList.update t (fst (getTable st t) @ recs) (tables st)"
    and st'_nil: "items = [] \<Longrightarrow> st' = st"
    using assms by (auto simp: InMemoryAdapter_createMany_eq split: if_splits)
  have 1: "length recs = length items"
    by (simp add: recs created_list_length)
  have 2: "recs ! j = created_record rt (tick st + j * ticks_per_create rt)
                    (counter st + j * counters_per_create rt) (items ! j)"
    if "j < length items" for j
    using that by (simp add: recs created_list_nth)
  have 3: "items \<noteq> [] \<longrightarrow> map_of (tables st') t = Some (fst (getTable st t) @ recs)"
    by (simp add: st' update_conv')
  have 4: "map_of (tables st') t' = map_of (tables st) t'" if "t' \<noteq> t" for t'
    using that by (cases "items = []") (simp_all add: st' st'_nil update_conv')
  have 5: "\<forall>g. crypto_randomUUID rt = Some g \<and> inj g \<longrightarrow>
       distinct (map (\<lambda>r. get r ''id'') recs) \<and>
       ((\<forall>r \<in> set (fst (getTable st t)). \<exists>n < tick st. get r ''id'' = JStr (g n)) \<longrightarrow>
          (\<forall>r \<in> set recs. get r ''id'' \<notin> (\<lambda>r. get r ''id'') ` set (fst (getTable st t))))"
    unfolding recs using crypto_ids_distinct crypto_ids_new by blast
  have 6: "crypto_randomUUID rt = None \<and> (\<forall>n. 0 \<le> Date_now rt n) \<longrightarrow>
       distinct (map (\<lambda>r. get r ''id'') recs) \<and>
       ((\<forall>r \<in> set (fst (getTable st t)). \<exists>a n x. 0 \<le> a \<and> n \<le> counter st \<and>
            get r ''id'' = JStr (''mem-'' @ show_int a @ ''-'' @ show_nat n @ ''-'' @ x)) \<longrightarrow>
          (\<forall>r \<in> set recs. get r ''id'' \<notin> (\<lambda>r. get r ''id'') ` set (fst (getTable st t))))"
    unfolding recs using fallback_ids_distinct fallback_ids_new by blast
  have 7: "\<forall>j < length items.
       recs ! j = created_record rt (tick st + j * ticks_per_create rt)
                    (counter st + j * counters_per_create rt) (items ! j) \<and>
       get (recs ! j) ''id'' =
         JStr (uuid_value rt (tick st + j * ticks_per_create rt + 1)
                 (counter st + j * counters_per_create rt)) \<and>
       get (recs ! j) ''created_at'' = JStr (Date_toISOString rt (tick st + j * ticks_per_create rt)) \<and>
       get (recs ! j) ''updated_at'' = JStr (Date_toISOString rt (tick st + j * ticks_per_create rt)) \<and>
       (\<forall>f. f \<notin> {''id'', ''created_at'', ''updated_at''} \<longrightarrow>
            map_of (recs ! j) f = map_of (items ! j) f)"
    using 2 by (simp add: created_record_fields created_record_map_of)
  show ?thesis
    using 1 3 4 5 6 7 by blast
qed

section \<open>The operations on the sample inputs\<close>

lemma sample_createMany:
  "InMemoryAdapter_createMany sample_runtime empty_state ''users'' sample_items =
     ([[(''name'', JStr ''ann''), (''id'', JStr ''u''), (''created_at'', JStr ''T0''),
        (''updated_at'', JStr ''T0'')],
       [(''id'', JStr ''uuu''), (''created_at'', JStr ''T2''), (''updated_at'', JStr ''T2'')]],
      \<lparr>tables = [(''users'',
         [[(''name'', JStr ''ann''), (''id'', JStr ''u''), (''created_at'', JStr ''T0''),
           (''updated_at'', JStr ''T0'')],
          [(''id'', JStr ''uuu''), (''created_at'', JStr ''T2''), (''updated_at'', JStr ''T2'')]])],
       counter = 0, tick = 4\<rparr>)"
  by code_simp

lemma sample_generator:
  "crypto_randomUUID sample_runtime = Some (\<lambda>n. replicate n CHR ''u'')"
  "inj (\<lambda>n. replicate n CHR ''u'')"
proof -
  show "crypto_randomUUID sample_runtime = Some (\<lambda>n. replicate n CHR ''u'')"
    by (simp add: sample_runtime_def)
  show "inj (\<lambda>n. replicate n CHR ''u'')"
  proof (rule injI)
    fix a b :: nat
    assume "replicate a CHR ''u'' = replicate b CHR ''u''"
    then have "length (replicate a CHR ''u'') = length (replicate b CHR ''u'')"
      by (rule arg_cong)
    then show "a = b" by simp
  qed
qed

lemma fallback_createMany:
  "InMemoryAdapter_createMany fallback_runtime empty_state ''users'' sample_items =
     ([[(''name'', JStr ''ann''), (''id'', JStr ''mem-1-1-r2''), (''created_at'', JStr ''T0''),
        (''updated_at'', JStr ''T0'')],
       [(''id'', JStr ''mem-4-2-r5''), (''created_at'', JStr ''T3''), (''updated_at'', JStr ''T3'')]],
      \<lparr>tables = [(''users'',
         [[(''name'', JStr ''ann''), (''id'', JStr ''mem-1-1-r2''), (''created_at'', JStr ''T0''),
           (''updated_at'', JStr ''T0'')],
          [(''id'', JStr ''mem-4-2-r5''), (''created_at'', JStr ''T3''),
           (''updated_at'', JStr ''T3'')]])],
       counter = 2, tick = 6\<rparr>)"
  by code_simp

lemma fallback_generator:
  "crypto_randomUUID fallback_runtime = None"
  "\<forall>n. 0 \<le> Date_now fallback_runtime n"
  by (simp_all add: fallback_runtime_def sample_runtime_def)

lemma empty_state_no_records:
  "fst (getTable empty_state ''users'') = []"
  by (simp add: getTable_def empty_state_def)

theorem createMany_one_record_per_item_witness:
  "InMemoryAdapter_createMany sample_runtime empty_state ''users'' sample_items =
     ([[(''name'', JStr ''ann''), (''id'', JStr ''u''), (''created_at'', JStr ''T0''),
        (''updated_at'', JStr ''T0'')],
       [(''id'', JStr ''uuu''), (''created_at'', JStr ''T2''), (''updated_at'', JStr ''T2'')]],
      \<lparr>tables = [(''users'',
         [[(''name'', JStr ''ann''), (''id'', JStr ''u''), (''created_at'', JStr ''T0''),
           (''updated_at'', JStr ''T0'')],
          [(''id'', JStr ''uuu''), (''created_at'', JStr ''T2''), (''updated_at'', JStr ''T2'')]])],
       counter = 0, tick = 4\<rparr>) \<and>
   sample_items \<noteq> [] \<and>
   length [[(''name'', JStr ''ann''), (''id'', JStr ''u''), (''created_at'', JStr ''T0''),
            (''updated_at'', JStr ''T0'')],
           [(''id'', JStr ''uuu''), (''created_at'', JStr ''T2''), (''updated_at'', JStr ''T2'')]]
     = length sample_items \<and>
   distinct (map (\<lambda>r. get r ''id'')
     [[(''name'', JStr ''ann''), (''id'', JStr ''u''), (''created_at'', JStr ''T0''),
       (''updated_at'', JStr ''T0'')],
      [(''id'', JStr ''uuu''), (''created_at'', JStr ''T2''), (''updated_at'', JStr ''T2'')]]) \<and>
   crypto_randomUUID fallback_runtime = None \<and>
   distinct (map (\<lambda>r. get r ''id'')
     [[(''name'', JStr ''ann''), (''id'', JStr ''mem-1-1-r2''), (''created_at'', JStr ''T0''),
       (''updated_at'', JStr ''T0'')],
      [(''id'', JStr ''mem-4-2-r5''), (''created_at'', JStr ''T3''), (''updated_at'', JStr ''T3'')]])"
proof -
  note w = createMany_one_record_per_item [OF sample_createMany]
  note f = createMany_one_record_per_item [OF fallback_createMany]
  have old_crypto: "\<forall>r \<in> set (fst (getTable empty_state ''users'')).
      \<exists>n < tick empty_state. get r ''id'' = JStr (replicate n CHR ''u'')"
    and old_fallback: "\<forall>r \<in> set (fst (getTable empty_state ''users'')).
      \<exists>a n x. 0 \<le> a \<and> n \<le> counter empty_state \<and>
        get r ''id'' = JStr (''mem-'' @ show_int a @ ''-'' @ show_nat n @ ''-'' @ x)"
    unfolding empty_state_no_records by simp_all
  have "sample_items \<noteq> []"
    by (simp add: sample_items_def)
  moreover have "length [[(''name'', JStr ''ann''), (''id'', JStr ''u''), (''created_at'', JStr ''T0''),
            (''updated_at'', JStr ''T0'')],
           [(''id'', JStr ''uuu''), (''created_at'', JStr ''T2''), (''updated_at'', JStr ''T2'')]]
     = length sample_items"
    using w by blast
  moreover have "distinct (map (\<lambda>r. get r ''id'')
     [[(''name'', JStr ''ann''), (''id'', JStr ''u''), (''created_at'', JStr ''T0''),
       (''updated_at'', JStr ''T0'')],
      [(''id'', JStr ''uuu''), (''created_at'', JStr ''T2''), (''updated_at'', JStr ''T2'')]])"
    using w sample_generator old_crypto by blast
  moreover have "distinct (map (\<lambda>r. get r ''id'')
     [[(''name'', JStr ''ann''), (''id'', JStr ''mem-1-1-r2''), (''created_at'', JStr ''T0''),
       (''updated_at'', JStr ''T0'')],
      [(''id'', JStr ''mem-4-2-r5''), (''created_at'', JStr ''T3''), (''updated_at'', JStr ''T3'')]])"
    using f fallback_generator old_fallback by blast
  ultimately show ?thesis
    using sample_createMany fallback_generator(1) by blast
qed

lemma sample_findMany:
  "fst (InMemoryAdapter_findMany sample_runtime sample_state ''users'' (page_options 2 1)) =
     Inr \<lparr>pr_data = [[(''id'', JStr ''a2'')], [(''id'', JStr ''a3'')]],
          pr_count = 3, pr_limit = 2, pr_offset = 1, hasMore = False\<rparr>"
  by code_simp

lemma sample_supabase_findMany:
  "SupabaseAdapter_findMany sample_client ''users'' (page_options 2 1) =
     Inr \<lparr>pr_data = [[(''id'', JStr ''a1'')]], pr_count = 3, pr_limit = 2, pr_offset = 1,
          hasMore = True\<rparr>"
  by code_simp

lemma sample_service_findMany:
  "fst (DataService_findMany (InMemoryAdapter sample_runtime) sample_service ''users''
          (page_options 2 1)) =
     Inr \<lparr>pr_data = [[(''id'', JStr ''a2'')], [(''id'', JStr ''a3'')]],
          pr_count = 3, pr_limit = 2, pr_offset = 1, hasMore = False\<rparr>"
  by code_simp

theorem hasMore_iff_more_records_witness:
  "fst (InMemoryAdapter_findMany sample_runtime sample_state ''users'' (page_options 2 1)) =
     Inr \<lparr>pr_data = [[(''id'', JStr ''a2'')], [(''id'', JStr ''a3'')]],
          pr_count = 3, pr_limit = 2, pr_offset = 1, hasMore = False\<rparr> \<and>
   SupabaseAdapter_findMany sample_client ''users'' (page_options 2 1) =
     Inr \<lparr>pr_data = [[(''id'', JStr ''a1'')]], pr_count = 3, pr_limit = 2, pr_offset = 1,
          hasMore = True\<rparr> \<and>
   fst (DataService_findMany (InMemoryAdapter sample_runtime) sample_service ''users''
          (page_options 2 1)) =
     Inr \<lparr>pr_data = [[(''id'', JStr ''a2'')], [(''id'', JStr ''a3'')]],
          pr_count = 3, pr_limit = 2, pr_offset = 1, hasMore = False\<rparr> \<and>
   fst (ad_findMany (InMemoryAdapter sample_runtime) (adapter sample_service) ''users''
          (page_options 2 1)) =
     Inr \<lparr>pr_data = [[(''id'', JStr ''a2'')], [(''id'', JStr ''a3'')]],
          pr_count = 3, pr_limit = 2, pr_offset = 1, hasMore = False\<rparr> \<and>
   (False \<longleftrightarrow> (1::int) + int (length [[(''id'', JStr ''a2'')], [(''id'', JStr ''a3'')]]) < 3) \<and>
   (True \<longleftrightarrow> (1::int) + int (length [[(''id'', JStr ''a1'')]]) < 3)"
proof -
  let ?p = "\<lparr>pr_data = [[(''id'', JStr ''a2'')], [(''id'', JStr ''a3'')]],
          pr_count = 3, pr_limit = 2, pr_offset = 1, hasMore = False\<rparr>"
  let ?q = "\<lparr>pr_data = [[(''id'', JStr ''a1'')]], pr_count = 3, pr_limit = 2, pr_offset = 1,
          hasMore = True\<rparr>"
  note w = hasMore_iff_more_records [of sample_runtime sample_state "''users''" "page_options 2 1"
      ?p sample_client ?q "InMemoryAdapter sample_runtime" sample_service ?p]
  have nonneg: "0 \<le> pr_offset ?p" "0 \<le> pr_limit ?p"
    by simp_all
  have "hasMore ?p \<longleftrightarrow> pr_offset ?p + int (length (pr_data ?p)) < pr_count ?p"
    using w sample_findMany nonneg by blast
  then have a: "False \<longleftrightarrow> (1::int) + int (length [[(''id'', JStr ''a2'')], [(''id'', JStr ''a3'')]]) < 3"
    by simp
  have "hasMore ?q \<longleftrightarrow> pr_offset ?q + int (length (pr_data ?q)) < pr_count ?q"
    using w sample_supabase_findMany by blast
  then have b: "True \<longleftrightarrow> (1::int) + int (length [[(''id'', JStr ''a1'')]]) < 3"
    by simp
  have c: "fst (ad_findMany (InMemoryAdapter sample_runtime) (adapter sample_service) ''users''
          (page_options 2 1)) = Inr ?p"
    using w sample_service_findMany by blast
  show ?thesis
    using a b c sample_findMany sample_supabase_findMany sample_service_findMany by blast
qed

theorem hasMore_negative_offset:
  "fst (InMemoryAdapter_findMany sample_runtime sample_state ''users'' (page_options 50 (- 1))) =
     Inr \<lparr>pr_data = [[(''id'', JStr ''a3'')]], pr_count = 3, pr_limit = 50, pr_offset = - 1,
          hasMore = False\<rparr> \<and>
   (- 1 :: int) + int (length [[(''id'', JStr ''a3'')]]) < 3"
  by code_simp

lemma sample_valid:
  "validateTable sample_service ''users'' = Inr ()"
  "validateId ''zz'' = Inr ()"
  "validateId ''a2'' = Inr ()"
  by code_simp+

lemma sample_users:
  "fst (getTable (adapter sample_service) ''users'') =
     [[(''id'', JStr ''a1'')], [(''id'', JStr ''a2'')], [(''id'', JStr ''a3'')]]"
  by code_simp

theorem delete_absent_and_present_witness:
  "validateTable sample_service ''users'' = Inr () \<and>
   validateId ''zz'' = Inr () \<and>
   validateId ''a2'' = Inr () \<and>
   fst (InMemoryAdapter_delete (adapter sample_service) ''users'' ''zz'') =
     Inl (DataError ''Not found: zz'' NOT_FOUND) \<and>
   fst (DataService_delete (InMemoryAdapter sample_runtime) sample_service ''users'' ''zz'') =
     Inl (DataError ''Not found: zz'' ADAPTER) \<and>
   fst (DataService_delete (InMemoryAdapter sample_runtime) sample_service ''users'' ''a2'') = Inr () \<and>
   fst (getTable (adapter (snd (DataService_delete (InMemoryAdapter sample_runtime) sample_service
          ''users'' ''a2''))) ''users'') =
     [[(''id'', JStr ''a1'')], [(''id'', JStr ''a3'')]] \<and>
   fst (DataService_findOne (InMemoryAdapter sample_runtime) 0 0
          (snd (DataService_delete (InMemoryAdapter sample_runtime) sample_service ''users'' ''a2''))
          ''users'' ''a2'') = Inr None"
proof -
  note absent = delete_absent_and_present [OF sample_valid(1) sample_valid(2), of sample_runtime 0 0]
  note present = delete_absent_and_present [OF sample_valid(1) sample_valid(3), of sample_runtime 0 0]
  have no_zz: "\<forall>r \<in> set (fst (getTable (adapter sample_service) ''users'')). get r ''id'' \<noteq> JStr ''zz''"
    unfolding sample_users by (simp add: get_def)
  have has_a2: "\<exists>r \<in> set (fst (getTable (adapter sample_service) ''users'')). get r ''id'' = JStr ''a2''"
    unfolding sample_users by (simp add: get_def)
  have dist: "distinct (map (\<lambda>r. get r ''id'') (fst (getTable (adapter sample_service) ''users'')))"
    unfolding sample_users by (simp add: get_def)
  have kept: "filter (\<lambda>r. get r ''id'' \<noteq> JStr ''a2'') (fst (getTable (adapter sample_service) ''users''))
      = [[(''id'', JStr ''a1'')], [(''id'', JStr ''a3'')]]"
    unfolding sample_users by (simp add: get_def)
  have a: "fst (InMemoryAdapter_delete (adapter sample_service) ''users'' ''zz'') =
      Inl (DataError (''Not found: '' @ ''zz'') NOT_FOUND)"
    and b: "fst (DataService_delete (InMemoryAdapter sample_runtime) sample_service ''users'' ''zz'') =
      Inl (DataError (''Not found: '' @ ''zz'') ADAPTER)"
    using absent no_zz by blast+
  have c: "fst (DataService_delete (InMemoryAdapter sample_runtime) sample_service ''users'' ''a2'') = Inr ()"
    and d: "fst (getTable (adapter (snd (DataService_delete (InMemoryAdapter sample_runtime) sample_service
          ''users'' ''a2''))) ''users'') =
        filter (\<lambda>r. get r ''id'' \<noteq> JStr ''a2'') (fst (getTable (adapter sample_service) ''users''))"
    and e: "fst (DataService_findOne (InMemoryAdapter sample_runtime) 0 0
          (snd (DataService_delete (InMemoryAdapter sample_runtime) sample_service ''users'' ''a2''))
          ''users'' ''a2'') = Inr None"
    using present has_a2 dist by blast+
  show ?thesis
    using a b c d [unfolded kept] e sample_valid by simp
qed

theorem delete_absent_code_is_ADAPTER:
  "(case fst (DataService_delete (InMemoryAdapter sample_runtime) sample_service ''users'' ''zz'') of
      Inl e \<Rightarrow> code e
    | Inr u \<Rightarrow> None) \<noteq> Some NOT_FOUND \<and>
   fst (DataService_delete (InMemoryAdapter sample_runtime) sample_service ''users'' ''zz'') =
     Inl (DataError ''Not found: zz'' ADAPTER)"
  by code_simp

lemma sample_writes:
  "fst (DataService_create (InMemoryAdapter sample_runtime) sample_service ''users''
          [(''name'', JStr ''x'')]) =
     Inr [(''name'', JStr ''x''), (''id'', JStr ''uuuuuuu''), (''created_at'', JStr ''T6''),
          (''updated_at'', JStr ''T6'')]"
  "fst (DataService_createMany (InMemoryAdapter sample_runtime) sample_service ''users'' sample_items) =
     Inr [[(''name'', JStr ''ann''), (''id'', JStr ''uuuuuuu''), (''created_at'', JStr ''T6''),
           (''updated_at'', JStr ''T6'')],
          [(''id'', JStr ''uuuuuuuuu''), (''created_at'', JStr ''T8''), (''updated_at'', JStr ''T8'')]]"
  "fst (DataService_deleteMany (InMemoryAdapter sample_runtime) sample_service ''users'' []) = Inr 3"
  "fst (DataService_update (InMemoryAdapter sample_runtime) sample_service ''users'' ''a2''
          [(''name'', JStr ''x'')]) =
     Inr [(''id'', JStr ''a2''), (''name'', JStr ''x''), (''updated_at'', JStr ''T6'')]"
  "fst (DataService_delete (InMemoryAdapter sample_runtime) sample_service ''users'' ''a2'') = Inr ()"
  by code_simp+

lemma sample_cache:
  "map_of (cache sample_service) ''users:a1'' = Some \<lparr>data = [(''id'', JStr ''a1'')], expiresAt = 1000\<rparr>"
  "map_of (cache sample_service) ''posts:p1'' = Some \<lparr>data = [(''id'', JStr ''p1'')], expiresAt = 1000\<rparr>"
  "startsWith ''users:a1'' (''users'' @ '':'')"
  "startsWith ''users:a2'' (''users'' @ '':'')"
  "\<not> startsWith ''posts:p1'' (''users'' @ '':'')"
  by (simp_all add: sample_service_def startsWith_def)

theorem writes_invalidate_cache_witness:
  "map_of (cache (snd (DataService_create (InMemoryAdapter sample_runtime) sample_service ''users''
      [(''name'', JStr ''x'')]))) ''users:a1'' = None \<and>
   map_of (cache (snd (DataService_create (InMemoryAdapter sample_runtime) sample_service ''users''
      [(''name'', JStr ''x'')]))) ''posts:p1'' =
     Some \<lparr>data = [(''id'', JStr ''p1'')], expiresAt = 1000\<rparr> \<and>
   map_of (cache (snd (DataService_createMany (InMemoryAdapter sample_runtime) sample_service ''users''
      sample_items))) ''users:a1'' = None \<and>
   map_of (cache (snd (DataService_deleteMany (InMemoryAdapter sample_runtime) sample_service ''users''
      []))) ''users:a1'' = None \<and>
   map_of (cache (snd (DataService_update (InMemoryAdapter sample_runtime) sample_service ''users'' ''a2''
      [(''name'', JStr ''x'')]))) ''users:a2'' = None \<and>
   map_of (cache (snd (DataService_update (InMemoryAdapter sample_runtime) sample_service ''users'' ''a2''
      [(''name'', JStr ''x'')]))) ''users:a1'' =
     Some \<lparr>data = [(''id'', JStr ''a1'')], expiresAt = 1000\<rparr> \<and>
   map_of (cache (snd (DataService_delete (InMemoryAdapter sample_runtime) sample_service ''users''
      ''a2''))) ''users:a2'' = None \<and>
   map_of (cache (snd (DataService_delete (InMemoryAdapter sample_runtime) sample_service ''users''
      ''a2''))) ''users:a1'' =
     Some \<lparr>data = [(''id'', JStr ''a1'')], expiresAt = 1000\<rparr>"
proof -
  let ?r = "[(''name'', JStr ''x''), (''id'', JStr ''uuuuuuu''), (''created_at'', JStr ''T6''),
          (''updated_at'', JStr ''T6'')]"
  let ?rs = "[[(''name'', JStr ''ann''), (''id'', JStr ''uuuuuuu''), (''created_at'', JStr ''T6''),
           (''updated_at'', JStr ''T6'')],
          [(''id'', JStr ''uuuuuuuuu''), (''created_at'', JStr ''T8''), (''updated_at'', JStr ''T8'')]]"
  let ?r' = "[(''id'', JStr ''a2''), (''name'', JStr ''x''), (''updated_at'', JStr ''T6'')]"
  note w1 = writes_invalidate_cache [of "InMemoryAdapter sample_runtime" sample_service "''users''"
      "[(''name'', JStr ''x'')]" ?r "''users:a1''" sample_items ?rs "[]" 3 "''a2''" ?r' "()"]
  note w2 = writes_invalidate_cache [of "InMemoryAdapter sample_runtime" sample_service "''users''"
      "[(''name'', JStr ''x'')]" ?r "''posts:p1''" sample_items ?rs "[]" 3 "''a2''" ?r' "()"]
  note w3 = writes_invalidate_cache [of "InMemoryAdapter sample_runtime" sample_service "''users''"
      "[(''name'', JStr ''x'')]" ?r "''users:a2''" sample_items ?rs "[]" 3 "''a2''" ?r' "()"]
  have ne: "''users:a1'' \<noteq> ''users'' @ '':'' @ ''a2''" "''users:a2'' = ''users'' @ '':'' @ ''a2''"
    by simp_all
  have "map_of (cache (snd (DataService_create (InMemoryAdapter sample_runtime) sample_service ''users''
      [(''name'', JStr ''x'')]))) ''users:a1'' = None"
    using w1 sample_writes(1) sample_cache(3) by presburger
  moreover have "map_of (cache (snd (DataService_create (InMemoryAdapter sample_runtime) sample_service
      ''users'' [(''name'', JStr ''x'')]))) ''posts:p1'' =
     Some \<lparr>data = [(''id'', JStr ''p1'')], expiresAt = 1000\<rparr>"
    using w2 sample_writes(1) sample_cache(5) sample_cache(2) by presburger
  moreover have "map_of (cache (snd (DataService_createMany (InMemoryAdapter sample_runtime)
      sample_service ''users'' sample_items))) ''users:a1'' = None"
    using w1 sample_writes(2) sample_cache(3) by presburger
  moreover have "map_of (cache (snd (DataService_deleteMany (InMemoryAdapter sample_runtime)
      sample_service ''users'' []))) ''users:a1'' = None"
    using w1 sample_writes(3) sample_cache(3) by presburger
  moreover have "map_of (cache (snd (DataService_update (InMemoryAdapter sample_runtime) sample_service
      ''users'' ''a2'' [(''name'', JStr ''x'')]))) ''users:a2'' = None"
    using w3 sample_writes(4) ne(2) by presburger
  moreover have "map_of (cache (snd (DataService_update (InMemoryAdapter sample_runtime) sample_service
      ''users'' ''a2'' [(''name'', JStr ''x'')]))) ''users:a1'' =
     Some \<lparr>data = [(''id'', JStr ''a1'')], expiresAt = 1000\<rparr>"
    using w1 sample_writes(4) ne(1) sample_cache(1) by presburger
  moreover have "map_of (cache (snd (DataService_delete (InMemoryAdapter sample_runtime) sample_service
      ''users'' ''a2''))) ''users:a2'' = None"
    using w3 sample_writes(5) ne(2) by presburger
  moreover have "map_of (cache (snd (DataService_delete (InMemoryAdapter sample_runtime) sample_service
      ''users'' ''a2''))) ''users:a1'' =
     Some \<lparr>data = [(''id'', JStr ''a1'')], expiresAt = 1000\<rparr>"
    using w1 sample_writes(5) ne(1) sample_cache(1) by presburger
  ultimately show ?thesis by blast
qed

lemma sample_invalid:
  "validateTable (DataService_new () None) ''9x'' = Inl (DataError ''Invalid table name: 9x'' VALIDATION)"
  "validateTable (DataService_new () None) ''users'' = Inr ()"
  "validateId ''a b'' = Inl (DataError ''Invalid id: a b'' VALIDATION)"
  "validateId ''a1'' = Inr ()"
  by code_simp+

lemma failing_adapter_fails:
  "fst (ad_findMany failing_adapter s t opts) = Inl unreachable"
  "fst (ad_findOne failing_adapter s t i) = Inl unreachable"
  "fst (ad_create failing_adapter s t d) = Inl unreachable"
  "fst (ad_createMany failing_adapter s t ds) = Inl unreachable"
  "fst (ad_update failing_adapter s t i d) = Inl unreachable"
  "fst (ad_delete failing_adapter s t i) = Inl unreachable"
  "fst (ad_deleteMany failing_adapter s t fs) = Inl unreachable"
  "fst (ad_count failing_adapter s t fo) = Inl unreachable"
  "fst (ad_healthCheck failing_adapter s) = Inl unreachable"
  by (simp_all add: failing_adapter_def)

theorem validation_first_and_failures_wrapped_witness:
  "validateTable (DataService_new () None) ''9x'' = Inl (DataError ''Invalid table name: 9x'' VALIDATION) \<and>
   DataService_findMany failing_adapter (DataService_new () None) ''9x'' None =
     (Inl (DataError ''Invalid table name: 9x'' VALIDATION), DataService_new () None) \<and>
   DataService_create failing_adapter (DataService_new () None) ''9x'' [] =
     (Inl (DataError ''Invalid table name: 9x'' VALIDATION), DataService_new () None) \<and>
   validateTable (DataService_new () None) ''users'' = Inr () \<and>
   validateId ''a b'' = Inl (DataError ''Invalid id: a b'' VALIDATION) \<and>
   DataService_delete failing_adapter (DataService_new () None) ''users'' ''a b'' =
     (Inl (DataError ''Invalid id: a b'' VALIDATION), DataService_new () None) \<and>
   validateId ''a1'' = Inr () \<and>
   fst (ad_create failing_adapter (adapter (DataService_new () None)) ''users'' []) = Inl (Error ''fetch failed'') \<and>
   fst (DataService_create failing_adapter (DataService_new () None) ''users'' []) =
     Inl (DataError ''fetch failed'' ADAPTER) \<and>
   fst (DataService_findOne failing_adapter 0 0 (DataService_new () None) ''users'' ''a1'') =
     Inl (DataError ''fetch failed'' ADAPTER) \<and>
   fst (DataService_delete failing_adapter (DataService_new () None) ''users'' ''a1'') =
     Inl (DataError ''fetch failed'' ADAPTER) \<and>
   fst (DataService_healthCheck failing_adapter (DataService_new () None)) =
     Inr \<lparr>ok = False, latencyMs = - 1\<rparr>"
proof -
  let ?svc = "DataService_new () None :: unit DataService"
  let ?bad = "DataError ''Invalid table name: 9x'' VALIDATION"
  let ?bad_id = "DataError ''Invalid id: a b'' VALIDATION"
  note w1 = validation_first_and_failures_wrapped
    [where svc = ?svc and t = "''9x''" and e = ?bad and A = failing_adapter and opts = None
       and d = "[]"]
  note w2 = validation_first_and_failures_wrapped
    [where svc = ?svc and t = "''users''" and e = ?bad_id and A = failing_adapter and i = "''a b''"]
  note w3 = validation_first_and_failures_wrapped
    [where svc = ?svc and t = "''users''" and A = failing_adapter and i = "''a1''" and d = "[]"
       and err = unreachable and now = 0 and now' = 0]
  have r: "rethrow opname unreachable = DataError ''fetch failed'' ADAPTER" for opname
    by (simp add: rethrow_def unreachable_def)
  have miss: "fst (getCached 0 (cache ?svc) (cacheKey ''users'' (Some ''a1''))) = None"
    by (simp add: DataService_new_def getCached_def)
  have a: "DataService_findMany failing_adapter ?svc ''9x'' None = (Inl ?bad, ?svc)"
    and b: "DataService_create failing_adapter ?svc ''9x'' [] = (Inl ?bad, ?svc)"
    using w1 sample_invalid(1) by blast+
  have c: "DataService_delete failing_adapter ?svc ''users'' ''a b'' = (Inl ?bad_id, ?svc)"
    using w2 sample_invalid(2,3) by blast
  have d: "fst (DataService_create failing_adapter ?svc ''users'' []) = Inl (rethrow ''create'' unreachable)"
    using w3 sample_invalid(2) failing_adapter_fails(3) by blast
  have e: "fst (DataService_findOne failing_adapter 0 0 ?svc ''users'' ''a1'') =
      Inl (rethrow ''findOne'' unreachable)"
    using w3 sample_invalid(2,4) failing_adapter_fails(2) miss by blast
  have f: "fst (DataService_delete failing_adapter ?svc ''users'' ''a1'') =
      Inl (rethrow ''delete'' unreachable)"
    using w3 sample_invalid(2,4) failing_adapter_fails(6) by blast
  have g: "fst (DataService_healthCheck failing_adapter ?svc) = Inr \<lparr>ok = False, latencyMs = - 1\<rparr>"
    using w3 failing_adapter_fails(9) by blast
  have h: "fst (ad_create failing_adapter (adapter ?svc) ''users'' []) = Inl (Error ''fetch failed'')"
    using failing_adapter_fails(3) by (simp add: unreachable_def)
  show ?thesis
    using a b c d e f g h sample_invalid unfolding r by blast
qed

theorem healthCheck_failure_is_not_rethrown:
  "fst (ad_healthCheck failing_adapter ()) = Inl (Error ''fetch failed'') \<and>
   fst (DataService_healthCheck failing_adapter (DataService_new () None)) =
     Inr \<lparr>ok = False, latencyMs = - 1\<rparr>"
  by (simp add: failing_adapter_def unreachable_def DataService_healthCheck_def DataService_new_def)

end
